theory Spec2Isabelle
  imports Complex_Main "HOL-Library.Multiset" "HOL-Library.Log_Nat"
begin

section \<open>Data model of the vector service\<close>

text \<open>
  The service keeps two collections in the vector store: \<open>documents\<close> and
  \<open>video_transcripts\<close>. A row of either collection is a flat object; the fields below
  are the ones written by \<open>processDocumentChunks\<close> and \<open>processVideoTranscriptChunks\<close>.
  Identifiers are JavaScript numbers holding integers and are modelled as \<open>int\<close>.
  \<open>createdAt\<close> is an ISO-8601 string produced by \<open>toISOString\<close>; a row holds the instant it
  denotes, in milliseconds since the epoch (\<open>None\<close> for a missing or empty value), and
  the store sees the string (\<open>toISOString\<close> below). Distances and scores are modelled as
  exact reals.
\<close>

record doc_row =
  vector :: "real list"
  rowText :: string
  documentId :: int
  chunkIndex :: int
  subjectId :: int
  userId :: int
  sessionId :: int
  isTemporary :: bool
  createdAt :: "int option"

text \<open>A search result is a row annotated by the store with \<open>_distance\<close>.\<close>

record doc_hit = doc_row +
  distance :: "real option"

datatype category = Temporary | Permanent | Other

text \<open>The object \<open>{ ...doc, category, score }\<close> built by the retrieval.\<close>

record scored_doc =
  doc :: doc_hit
  category :: category
  score :: real

record video_row =
  v_vector :: "real list"
  v_text :: string
  v_videoId :: int
  v_chunkId :: int
  v_startTime :: int
  v_endTime :: int
  v_subjectId :: int
  v_createdAt :: "int option"

record video_hit = video_row +
  v_distance :: "real option"

text \<open>The object \<open>{ text, videoId, chunkId, subjectId, score }\<close> of \<open>searchVideoTranscripts\<close>.\<close>

record transcript_result =
  t_text :: string
  t_videoId :: int
  t_chunkId :: int
  t_subjectId :: int
  t_score :: real

datatype error = StoreError | EmbeddingProviderError | StorageError | FileError

section \<open>Retrieval\<close>

text \<open>
  The retrieval functions await three collaborators before they compute anything: the lazy
  \<open>initialize\<close>, the embedding of the query and the nearest-neighbour search of the store.
  Their joint answer is a parameter of the model: \<open>docSearch st q n\<close> is the outcome of
  \<open>this.table.search(embedding of q).limit(n).execute()\<close>, and \<open>videoSearch st q w n\<close> the
  outcome of the same query on the transcript table, with the clause
  \<open>where "subjectId" = s\<close> when \<open>w = Some s\<close>. \<open>Inl\<close> is a rejected promise, which every
  retrieval function rethrows. \<open>clock\<close> is \<open>Date.now()\<close>.
\<close>

record store =
  docSearch :: "string \<Rightarrow> int \<Rightarrow> error + doc_hit list"
  videoSearch :: "string \<Rightarrow> int option \<Rightarrow> int \<Rightarrow> error + video_hit list"
  clock :: int

text \<open>\<open>xs.slice(0, e)\<close>: a negative end counts from the end of the array.\<close>

definition js_slice0 :: "int \<Rightarrow> 'a list \<Rightarrow> 'a list" where
  "js_slice0 e xs =
     (if e < 0 then take (nat (int (length xs) + e)) xs else take (nat e) xs)"

text \<open>The three filters of \<open>searchDocumentsWithContext\<close>; the caller's identity is optional.\<close>

definition temporaryDocs_pred :: "int option \<Rightarrow> int option \<Rightarrow> doc_hit \<Rightarrow> bool" where
  "temporaryDocs_pred uid sid r \<longleftrightarrow>
     isTemporary r = True \<and> Some (userId r) = uid \<and> Some (sessionId r) = sid"

definition permanentDocs_pred :: "doc_hit \<Rightarrow> bool" where
  "permanentDocs_pred r \<longleftrightarrow>
     isTemporary r = False \<or> (userId r = 0 \<and> sessionId r = 0)"

definition otherDocs_pred :: "int option \<Rightarrow> int option \<Rightarrow> doc_hit \<Rightarrow> bool" where
  "otherDocs_pred uid sid r \<longleftrightarrow>
     isTemporary r = True \<and> (Some (userId r) \<noteq> uid \<or> Some (sessionId r) \<noteq> sid)"

definition semanticScore :: "doc_hit \<Rightarrow> real" where
  "semanticScore d = 1 - (case distance d of None \<Rightarrow> 0 | Some x \<Rightarrow> x)"

definition temporalScore :: "int \<Rightarrow> doc_hit \<Rightarrow> real" where
  "temporalScore now d =
     (case createdAt d of
        None \<Rightarrow> 0
      | Some t \<Rightarrow> max 0 (1 - real_of_int (now - t) / (2 * 60 * 60 * 1000)))"

fun scoreDocument :: "int \<Rightarrow> doc_hit \<Rightarrow> category \<Rightarrow> real" where
  "scoreDocument now d Temporary = 0.1 * semanticScore d + 0.9 * temporalScore now d + 10"
| "scoreDocument now d Permanent = 0.5 * semanticScore d + 0.5 * temporalScore now d + 5"
| "scoreDocument now d Other = 0.8 * semanticScore d + 0.2 * temporalScore now d"

definition scored :: "int \<Rightarrow> category \<Rightarrow> doc_hit \<Rightarrow> scored_doc" where
  "scored now c d = \<lparr>doc = d, category = c, score = scoreDocument now d c\<rparr>"

text \<open>
  \<open>sort((a, b) => b.score - a.score)\<close> is a stable sort by descending score (the
  specification of \<open>Array.prototype.sort\<close> requires stability), as is \<open>sort_key\<close> on the
  negated score.
\<close>

definition searchDocumentsWithContext ::
  "store \<Rightarrow> string \<Rightarrow> int option \<Rightarrow> int option \<Rightarrow> int option \<Rightarrow> int
     \<Rightarrow> error + scored_doc list" where
  "searchDocumentsWithContext st query subjId uid sid topK =
     (case docSearch st query (topK * 3) of
        Inl e \<Rightarrow> Inl e
      | Inr raw \<Rightarrow>
          let results = (case subjId of
                           None \<Rightarrow> raw
                         | Some s \<Rightarrow> filter (\<lambda>r. subjectId r = s) raw);
              temporaryDocs = filter (temporaryDocs_pred uid sid) results;
              permanentDocs = filter permanentDocs_pred results;
              otherDocs = filter (otherDocs_pred uid sid) results
          in if uid = None \<or> sid = None
             then
               let allDocs = temporaryDocs @ permanentDocs @ otherDocs
               in Inr (js_slice0 topK
                    (sort_key (\<lambda>x. - score x)
                       (map (\<lambda>d. \<lparr>doc = d, category = Permanent,
                                    score = 1 - (case distance d of None \<Rightarrow> 0 | Some x \<Rightarrow> x) + 5\<rparr>)
                            allDocs)))
             else
               let scoredResults =
                     map (scored (clock st) Temporary) temporaryDocs @
                     map (scored (clock st) Permanent) permanentDocs @
                     map (scored (clock st) Other) otherDocs
               in Inr (js_slice0 topK (sort_key (\<lambda>x. - score x) scoredResults)))"

definition searchDocuments ::
  "store \<Rightarrow> string \<Rightarrow> int option \<Rightarrow> int \<Rightarrow> error + scored_doc list" where
  "searchDocuments st query subjId topK =
     searchDocumentsWithContext st query subjId None None topK"

text \<open>
  \<open>if (subjectId)\<close> is a truthiness test: an absent subject and the subject \<open>0\<close> both take
  the branch without a \<open>where\<close> clause.
\<close>

definition searchVideoTranscripts ::
  "store \<Rightarrow> string \<Rightarrow> int option \<Rightarrow> int \<Rightarrow> error + transcript_result list" where
  "searchVideoTranscripts st query subjId topK =
     (case (if subjId \<noteq> None \<and> subjId \<noteq> Some 0
            then videoSearch st query subjId topK
            else videoSearch st query None topK) of
        Inl e \<Rightarrow> Inl e
      | Inr results \<Rightarrow>
          Inr (map (\<lambda>r. \<lparr>t_text = v_text r, t_videoId = v_videoId r,
                          t_chunkId = v_chunkId r, t_subjectId = v_subjectId r,
                          t_score = (case v_distance r of None \<Rightarrow> 0 | Some x \<Rightarrow> x)\<rparr>)
                   results))"

record combined =
  videos :: "transcript_result list"
  documents :: "scored_doc list"
  totalSources :: nat
  currentVideoId :: "int option"

text \<open>
  \<open>Math.ceil(topK * 0.7)\<close> and \<open>Math.floor(topK * 0.3)\<close> are computed in IEEE-754 double
  precision. \<open>topK\<close> is an integer of magnitude below \<open>2 ^ 53\<close> and so is a double itself.
  The literal \<open>0.7\<close> denotes the double \<open>3152519739159347 / 2 ^ 52\<close> and the literal \<open>0.3\<close>
  the double \<open>5404319552844595 / 2 ^ 54\<close>. The product of two doubles is the exact product
  rounded to 53 significant bits, ties to even: \<open>round53\<close> does this on the numerator, a
  non-negative integer. No product in that range overflows or is subnormal, and
  \<open>Math.ceil\<close> and \<open>Math.floor\<close> are exact.
\<close>

definition round53 :: "int \<Rightarrow> int" where
  "round53 n =
     (let s = bitlen n - 53
      in if s \<le> 0 then n
         else let u = 2 ^ nat s; q = n div u; r = n mod u
              in (if u < 2 * r \<or> (2 * r = u \<and> odd q) then q + 1 else q) * u)"

definition times_0_7 :: "int \<Rightarrow> real" where
  "times_0_7 k = real_of_int (sgn k * round53 (\<bar>k\<bar> * 3152519739159347)) / 2 ^ 52"

definition times_0_3 :: "int \<Rightarrow> real" where
  "times_0_3 k = real_of_int (sgn k * round53 (\<bar>k\<bar> * 5404319552844595)) / 2 ^ 54"

definition docCount :: "int \<Rightarrow> int" where
  "docCount topK = \<lceil>times_0_7 topK\<rceil>"

definition videoCount :: "int \<Rightarrow> int" where
  "videoCount topK = \<lfloor>times_0_3 topK\<rfloor>"

text \<open>\<open>if (currentVideoId)\<close> is a truthiness test as well: the id \<open>0\<close> counts as absent.\<close>

definition searchCombinedForVideoQA ::
  "store \<Rightarrow> string \<Rightarrow> int option \<Rightarrow> int \<Rightarrow> int option \<Rightarrow> error + combined" where
  "searchCombinedForVideoQA st query subjId topK curVideoId =
     (case searchDocuments st query subjId (docCount topK) of
           Inl e \<Rightarrow> Inl e
         | Inr docResults \<Rightarrow>
            (case searchVideoTranscripts st query subjId (videoCount topK + 3) of
               Inl e \<Rightarrow> Inl e
             | Inr found \<Rightarrow>
                 let videoResults =
                       (case curVideoId of
                          None \<Rightarrow> js_slice0 (videoCount topK) found
                        | Some cur \<Rightarrow>
                            if cur \<noteq> 0
                            then
                              let currentVideoResults = filter (\<lambda>r. t_videoId r = cur) found;
                                  otherVideoResults = filter (\<lambda>r. t_videoId r \<noteq> cur) found;
                                  boosted = map (\<lambda>r. r\<lparr>t_score := t_score r * 0.5\<rparr>)
                                                currentVideoResults
                              in js_slice0 (videoCount topK)
                                   (sort_key t_score (boosted @ otherVideoResults))
                            else js_slice0 (videoCount topK) found)
                 in Inr \<lparr>videos = videoResults, documents = docResults,
                         totalSources = length videoResults + length docResults,
                         currentVideoId = curVideoId\<rparr>))"

section \<open>The store, the service object and failing calls\<close>

text \<open>
  The state is the content of the two collections of the database (\<open>None\<close>: the table does
  not exist) and the two table handles of the service object (\<open>this.table\<close>,
  \<open>this.videoTable\<close>; \<open>False\<close> is \<open>null\<close>). Every awaited call to the store, the
  embedding provider or the relational storage is an external call: it is numbered, and
  the environment decides which numbers reject. A rejected call leaves the collections as
  they were. \<open>embedded\<close> logs the texts sent to the embedding provider, \<open>dropped\<close> the
  names of the collections dropped, and \<open>videos_rows\<close> holds the ids of the rows of the
  relational table \<open>videos\<close>.
\<close>

record service =
  tbl_documents :: "doc_row list option"
  tbl_video_transcripts :: "video_row list option"
  table :: bool
  videoTable :: bool
  calls :: nat
  embedded :: "string list"
  dropped :: "string list"
  videos_rows :: "int list"

text \<open>
  The environment gives the calls that reject, the embedding of a text and the instant
  \<open>new Date()\<close>, in milliseconds since the epoch. It also fixes two points on which the
  behaviour depends on the installation. \<open>strictTypes\<close>: whether the store rejects a
  comparison between values of different types or evaluates it to false.
  \<open>twoHoursBefore\<close>: the result of \<open>d.setHours(d.getHours() - 2)\<close>, the instant at which
  the local wall clock reads two hours less than at \<open>d\<close>; it is \<open>d - 7200000\<close> unless the
  offset of the local time zone changes in between.
\<close>

record env =
  fails :: "nat \<Rightarrow> bool"
  embed :: "string \<Rightarrow> real list"
  now :: int
  strictTypes :: bool
  twoHoursBefore :: "int \<Rightarrow> int"

datatype 'a outcome = Throw error service | Return 'a service

type_synonym 'a action = "service \<Rightarrow> 'a outcome"

definition andThen :: "'a action \<Rightarrow> ('a \<Rightarrow> 'b action) \<Rightarrow> 'b action" where
  "andThen m k s = (case m s of Throw e s' \<Rightarrow> Throw e s' | Return a s' \<Rightarrow> k a s')"

definition tryCatch :: "'a action \<Rightarrow> (error \<Rightarrow> 'a action) \<Rightarrow> 'a action" where
  "tryCatch m h s = (case m s of Throw e s' \<Rightarrow> h e s' | Return a s' \<Rightarrow> Return a s')"

definition external ::
  "env \<Rightarrow> error \<Rightarrow> (service \<Rightarrow> ('a \<times> service) option) \<Rightarrow> 'a action" where
  "external ev e act s =
     (let s1 = s\<lparr>calls := Suc (calls s)\<rparr>
      in if fails ev (calls s) then Throw e s1
         else case act s1 of None \<Rightarrow> Throw e s1 | Some (a, s2) \<Rightarrow> Return a s2)"

definition connect :: "env \<Rightarrow> unit action" where
  "connect ev = external ev StoreError (\<lambda>s. Some ((), s))"

definition tableNames :: "env \<Rightarrow> string list action" where
  "tableNames ev = external ev StoreError (\<lambda>s.
     Some ((if tbl_documents s \<noteq> None then [''documents''] else []) @
           (if tbl_video_transcripts s \<noteq> None then [''video_transcripts''] else []), s))"

definition dropTable :: "env \<Rightarrow> string \<Rightarrow> unit action" where
  "dropTable ev name = external ev StoreError (\<lambda>s.
     if name = ''documents'' \<and> tbl_documents s \<noteq> None
     then Some ((), s\<lparr>tbl_documents := None, dropped := dropped s @ [name]\<rparr>)
     else if name = ''video_transcripts'' \<and> tbl_video_transcripts s \<noteq> None
     then Some ((), s\<lparr>tbl_video_transcripts := None, dropped := dropped s @ [name]\<rparr>)
     else None)"

text \<open>\<open>this.table = await this.db.createTable("documents", rows)\<close>\<close>

definition createTable_documents :: "env \<Rightarrow> doc_row list \<Rightarrow> unit action" where
  "createTable_documents ev rows = external ev StoreError (\<lambda>s.
     if tbl_documents s = None
     then Some ((), s\<lparr>tbl_documents := Some rows, table := True\<rparr>)
     else None)"

definition createTable_video_transcripts :: "env \<Rightarrow> video_row list \<Rightarrow> unit action" where
  "createTable_video_transcripts ev rows = external ev StoreError (\<lambda>s.
     if tbl_video_transcripts s = None
     then Some ((), s\<lparr>tbl_video_transcripts := Some rows, videoTable := True\<rparr>)
     else None)"

subsection \<open>Conditions of a delete\<close>

text \<open>
  \<open>Date.prototype.toISOString\<close>: the UTC calendar date and time of an instant given in
  milliseconds since the epoch, as \<open>YYYY-MM-DDTHH:mm:ss.sssZ\<close>; a year outside
  \<open>0 .. 9999\<close> is written with a sign and six digits.
\<close>

definition dg :: "nat \<Rightarrow> char" where
  "dg n = ''0123456789'' ! (n mod 10)"

definition pad2 :: "nat \<Rightarrow> string" where
  "pad2 n = [dg (n div 10), dg n]"

definition pad3 :: "nat \<Rightarrow> string" where
  "pad3 n = [dg (n div 100), dg (n div 10), dg n]"

definition pad4 :: "nat \<Rightarrow> string" where
  "pad4 n = [dg (n div 1000), dg (n div 100), dg (n div 10), dg n]"

definition pad6 :: "nat \<Rightarrow> string" where
  "pad6 n = [dg (n div 100000), dg (n div 10000), dg (n div 1000), dg (n div 100),
             dg (n div 10), dg n]"

text \<open>
  The calendar date of the day \<open>z - 719468\<close> after the epoch: \<open>z\<close> counts the days from
  the first of March of the year 0, \<open>era\<close> the periods of 400 years, \<open>doe\<close> the day of the
  period, \<open>yoe\<close> the year of the period, \<open>doy\<close> the day of the year that begins in
  March and \<open>mp\<close> the month of that year.
\<close>

definition era :: "int \<Rightarrow> int" where
  "era z = z div 146097"

definition doe :: "int \<Rightarrow> int" where
  "doe z = z mod 146097"

definition yoe :: "int \<Rightarrow> int" where
  "yoe z = (doe z - doe z div 1460 + doe z div 36524 - doe z div 146096) div 365"

definition doy :: "int \<Rightarrow> int" where
  "doy z = doe z - (365 * yoe z + yoe z div 4 - yoe z div 100)"

definition mp :: "int \<Rightarrow> int" where
  "mp z = (5 * doy z + 2) div 153"

definition utc_date :: "int \<Rightarrow> int" where
  "utc_date z = doy z - (153 * mp z + 2) div 5 + 1"

definition utc_month :: "int \<Rightarrow> int" where
  "utc_month z = (if mp z < 10 then mp z + 3 else mp z - 9)"

definition utc_year :: "int \<Rightarrow> int" where
  "utc_year z = yoe z + era z * 400 + (if utc_month z \<le> 2 then 1 else 0)"

definition year_text :: "int \<Rightarrow> string" where
  "year_text y =
     (if 0 \<le> y \<and> y \<le> 9999 then pad4 (nat y)
      else (if y < 0 then ''-'' else ''+'') @ pad6 (nat \<bar>y\<bar>))"

definition date_text :: "int \<Rightarrow> string" where
  "date_text z =
     year_text (utc_year z) @ ''-'' @ pad2 (nat (utc_month z)) @ ''-'' @ pad2 (nat (utc_date z))"

definition time_text :: "nat \<Rightarrow> string" where
  "time_text ms =
     pad2 (ms div 3600000) @ '':'' @ pad2 (ms div 60000 mod 60) @ '':''
     @ pad2 (ms div 1000 mod 60) @ ''.'' @ pad3 (ms mod 1000)"

definition toISOString :: "int \<Rightarrow> string" where
  "toISOString t =
     date_text (t div 86400000 + 719468) @ ''T'' @ time_text (nat (t mod 86400000)) @ ''Z''"

text \<open>
  The argument of \<open>table.delete\<close> is the text of a condition. The conditions that the
  service writes are comparisons joined by \<open>AND\<close>; an operand is a double-quoted word, a
  single-quoted word, a bare word, \<open>true\<close> or \<open>false\<close>, or a bracketed list of numbers.
\<close>

datatype operand =
    DoubleQuoted string
  | SingleQuoted string
  | Bare string
  | BoolLiteral bool
  | ListLiteral "real list"

datatype comparison = Equals | Less

datatype condition =
    Compare operand comparison operand
  | AndAlso condition condition

datatype cell = StrCell string | BoolCell bool | NumCell int | VecCell "real list"

text \<open>
  The store reads a bare word as the name of a column, and a quoted word as a string
  literal, whether the quotes are single or double: \<open>"isTemporary"\<close> is the string
  \<open>isTemporary\<close>, not the column of that name.
\<close>

definition read_operand :: "(string \<Rightarrow> cell option) \<Rightarrow> operand \<Rightarrow> cell option" where
  "read_operand columns x =
     (case x of
        DoubleQuoted w \<Rightarrow> Some (StrCell w)
      | SingleQuoted w \<Rightarrow> Some (StrCell w)
      | Bare w \<Rightarrow> columns w
      | BoolLiteral b \<Rightarrow> Some (BoolCell b)
      | ListLiteral v \<Rightarrow> Some (VecCell v))"

text \<open>Strings are ordered by code unit, the first difference deciding.\<close>

fun str_less :: "string \<Rightarrow> string \<Rightarrow> bool" where
  "str_less [] [] = False"
| "str_less [] (y # ys) = True"
| "str_less (x # xs) [] = False"
| "str_less (x # xs) (y # ys) =
     (if x = y then str_less xs ys else (of_char x :: nat) < of_char y)"

text \<open>
  A comparison yields a truth value on two strings, two booleans or two numbers. The
  store has no comparison with a vector column or a list and rejects the condition
  (\<open>None\<close>); it rejects a comparison between two other values of different types when
  \<open>strictTypes\<close> is set, and evaluates it to false otherwise.
\<close>

definition compare_cells :: "bool \<Rightarrow> comparison \<Rightarrow> cell \<Rightarrow> cell \<Rightarrow> bool option" where
  "compare_cells strict c x y =
     (case (x, y) of
        (StrCell a, StrCell b) \<Rightarrow> Some (case c of Equals \<Rightarrow> a = b | Less \<Rightarrow> str_less a b)
      | (BoolCell a, BoolCell b) \<Rightarrow> Some (case c of Equals \<Rightarrow> a = b | Less \<Rightarrow> b \<and> \<not> a)
      | (NumCell a, NumCell b) \<Rightarrow> Some (case c of Equals \<Rightarrow> a = b | Less \<Rightarrow> a < b)
      | (VecCell a, _) \<Rightarrow> None
      | (_, VecCell b) \<Rightarrow> None
      | _ \<Rightarrow> if strict then None else Some False)"

fun holds :: "bool \<Rightarrow> (string \<Rightarrow> cell option) \<Rightarrow> condition \<Rightarrow> bool option" where
  "holds strict columns (Compare x c y) =
     (case read_operand columns x of
        None \<Rightarrow> None
      | Some a \<Rightarrow>
          (case read_operand columns y of
             None \<Rightarrow> None
           | Some b \<Rightarrow> compare_cells strict c a b))"
| "holds strict columns (AndAlso f g) =
     (case holds strict columns f of
        None \<Rightarrow> None
      | Some a \<Rightarrow>
          (case holds strict columns g of
             None \<Rightarrow> None
           | Some b \<Rightarrow> Some (a \<and> b)))"

definition time_cell :: "int option \<Rightarrow> cell" where
  "time_cell t = StrCell (case t of None \<Rightarrow> [] | Some i \<Rightarrow> toISOString i)"

definition doc_columns :: "doc_row \<Rightarrow> string \<Rightarrow> cell option" where
  "doc_columns r name =
     (if name = ''vector'' then Some (VecCell (vector r))
      else if name = ''text'' then Some (StrCell (rowText r))
      else if name = ''documentId'' then Some (NumCell (documentId r))
      else if name = ''chunkIndex'' then Some (NumCell (chunkIndex r))
      else if name = ''subjectId'' then Some (NumCell (subjectId r))
      else if name = ''userId'' then Some (NumCell (userId r))
      else if name = ''sessionId'' then Some (NumCell (sessionId r))
      else if name = ''isTemporary'' then Some (BoolCell (isTemporary r))
      else if name = ''createdAt'' then Some (time_cell (createdAt r))
      else None)"

definition video_columns :: "video_row \<Rightarrow> string \<Rightarrow> cell option" where
  "video_columns r name =
     (if name = ''vector'' then Some (VecCell (v_vector r))
      else if name = ''text'' then Some (StrCell (v_text r))
      else if name = ''videoId'' then Some (NumCell (v_videoId r))
      else if name = ''chunkId'' then Some (NumCell (v_chunkId r))
      else if name = ''startTime'' then Some (NumCell (v_startTime r))
      else if name = ''endTime'' then Some (NumCell (v_endTime r))
      else if name = ''subjectId'' then Some (NumCell (v_subjectId r))
      else if name = ''createdAt'' then Some (time_cell (v_createdAt r))
      else None)"

definition init_doc :: "env \<Rightarrow> doc_row" where
  "init_doc ev = \<lparr>vector = replicate 1536 0, rowText = ''init'', documentId = 0,
     chunkIndex = 0, subjectId = 0, userId = 0, sessionId = 0, isTemporary = False,
     createdAt = Some (now ev)\<rparr>"

definition init_video :: "env \<Rightarrow> video_row" where
  "init_video ev = \<lparr>v_vector = replicate 1536 0, v_text = ''init'', v_videoId = 0,
     v_chunkId = 0, v_startTime = 0, v_endTime = 0, v_subjectId = 0,
     v_createdAt = Some (now ev)\<rparr>"

text \<open>
  \<open>table.delete(condition)\<close>. The store checks the condition against the schema of the
  table, which is that of the row the table was created from, and rejects the call when
  the condition is rejected; otherwise it removes the rows on which the condition holds.
\<close>

definition doc_delete :: "env \<Rightarrow> condition \<Rightarrow> unit action" where
  "doc_delete ev c = external ev StoreError (\<lambda>s.
     case tbl_documents s of
       None \<Rightarrow> None
     | Some rows \<Rightarrow>
         if holds (strictTypes ev) (doc_columns (init_doc ev)) c = None then None
         else Some ((), s\<lparr>tbl_documents :=
                Some (filter (\<lambda>r. holds (strictTypes ev) (doc_columns r) c \<noteq> Some True)
                        rows)\<rparr>))"

definition doc_countRows :: "env \<Rightarrow> nat action" where
  "doc_countRows ev = external ev StoreError (\<lambda>s.
     case tbl_documents s of None \<Rightarrow> None | Some rows \<Rightarrow> Some (length rows, s))"

definition doc_add :: "env \<Rightarrow> doc_row list \<Rightarrow> unit action" where
  "doc_add ev records = external ev StoreError (\<lambda>s.
     case tbl_documents s of
       None \<Rightarrow> None
     | Some rows \<Rightarrow> Some ((), s\<lparr>tbl_documents := Some (rows @ records)\<rparr>))"

definition video_delete :: "env \<Rightarrow> condition \<Rightarrow> unit action" where
  "video_delete ev c = external ev StoreError (\<lambda>s.
     case tbl_video_transcripts s of
       None \<Rightarrow> None
     | Some rows \<Rightarrow>
         if holds (strictTypes ev) (video_columns (init_video ev)) c = None then None
         else Some ((), s\<lparr>tbl_video_transcripts :=
                Some (filter (\<lambda>r. holds (strictTypes ev) (video_columns r) c \<noteq> Some True)
                        rows)\<rparr>))"

definition video_add :: "env \<Rightarrow> video_row list \<Rightarrow> unit action" where
  "video_add ev records = external ev StoreError (\<lambda>s.
     case tbl_video_transcripts s of
       None \<Rightarrow> None
     | Some rows \<Rightarrow> Some ((), s\<lparr>tbl_video_transcripts := Some (rows @ records)\<rparr>))"

text \<open>
  \<open>this.videoTable.search([0, ..., 0]).limit(10000).execute()\<close>, the scan used to read the
  whole transcript table: the first 10000 rows in the order of the store.
\<close>

definition video_scan :: "env \<Rightarrow> video_row list action" where
  "video_scan ev = external ev StoreError (\<lambda>s.
     case tbl_video_transcripts s of
       None \<Rightarrow> None
     | Some rows \<Rightarrow> Some (take 10000 rows, s))"

definition getEmbedding :: "env \<Rightarrow> string \<Rightarrow> real list action" where
  "getEmbedding ev txt s =
     external ev EmbeddingProviderError (\<lambda>s'. Some (embed ev txt, s'))
       (s\<lparr>embedded := embedded s @ [txt]\<rparr>)"

section \<open>Initialisation\<close>

text \<open>The condition \<open>"text" = 'init'\<close> of the clean-up of the placeholder rows.\<close>

definition text_is_init :: condition where
  "text_is_init = Compare (DoubleQuoted ''text'') Equals (SingleQuoted ''init'')"

definition initialize :: "env \<Rightarrow> unit action" where
  "initialize ev =
     andThen (connect ev) (\<lambda>_.
     andThen (tableNames ev) (\<lambda>names.
     andThen (if ''documents'' \<in> set names then dropTable ev ''documents'' else Return ()) (\<lambda>_.
     andThen (createTable_documents ev [init_doc ev]) (\<lambda>_.
     andThen (if ''video_transcripts'' \<in> set names
              then dropTable ev ''video_transcripts'' else Return ()) (\<lambda>_.
     andThen (createTable_video_transcripts ev [init_video ev]) (\<lambda>_.
     tryCatch
       (andThen (doc_delete ev text_is_init) (\<lambda>_. video_delete ev text_is_init))
       (\<lambda>cleanupErr. Return ())))))))"

section \<open>Chunk ingestion\<close>

text \<open>
  \<open>Promise.all(chunks.map(async ...))\<close>: the embedding of every chunk is requested, in the
  order of the chunks; the result is rejected when one of the requests is.
\<close>

fun embedAll :: "env \<Rightarrow> string list \<Rightarrow> real list list action" where
  "embedAll ev [] s = Return [] s"
| "embedAll ev (c # cs) s =
     (case getEmbedding ev c s of
        Throw e s1 \<Rightarrow>
          (case embedAll ev cs s1 of Throw _ s2 \<Rightarrow> Throw e s2 | Return _ s2 \<Rightarrow> Throw e s2)
      | Return v s1 \<Rightarrow>
          (case embedAll ev cs s1 of
             Throw e s2 \<Rightarrow> Throw e s2
           | Return vs s2 \<Rightarrow> Return (v # vs) s2))"

text \<open>
  The bookkeeping of permanent documents (\<open>storage.getDocumentChunks\<close> and
  \<open>storage.updateDocumentChunk\<close>) touches the relational storage only; it is one external
  call without effect on the vector store.
\<close>

definition markEmbedded :: "env \<Rightarrow> int \<Rightarrow> unit action" where
  "markEmbedded ev docId = external ev StorageError (\<lambda>s. Some ((), s))"

definition processDocumentChunks ::
  "env \<Rightarrow> int \<Rightarrow> int \<Rightarrow> string list \<Rightarrow> int option \<Rightarrow> int option \<Rightarrow> bool \<Rightarrow> unit action" where
  "processDocumentChunks ev docId subjId chunks uid sid isTemp =
     andThen (\<lambda>s. if \<not> table s then initialize ev s else Return () s) (\<lambda>_.
       if length chunks = 0 then Return ()
       else
         andThen (embedAll ev chunks) (\<lambda>vecs.
         andThen (doc_add ev
                    (map (\<lambda>(index, chunk, v).
                            \<lparr>vector = v, rowText = chunk, documentId = docId,
                             chunkIndex = int index, subjectId = subjId,
                             userId = (case uid of None \<Rightarrow> 0 | Some u \<Rightarrow> u),
                             sessionId = (case sid of None \<Rightarrow> 0 | Some x \<Rightarrow> x),
                             isTemporary = isTemp, createdAt = Some (now ev)\<rparr>)
                         (zip [0 ..< length chunks] (zip chunks vecs)))) (\<lambda>_.
         if \<not> isTemp then markEmbedded ev docId else Return ())))"

definition processTemporaryDocumentChunks ::
  "env \<Rightarrow> int \<Rightarrow> int \<Rightarrow> int \<Rightarrow> int \<Rightarrow> string list \<Rightarrow> unit action" where
  "processTemporaryDocumentChunks ev docId uid sid subjId chunks =
     processDocumentChunks ev docId subjId chunks (Some uid) (Some sid) True"

text \<open>
  \<open>String.prototype.trim\<close> removes white space and line terminators. A character of the
  model is a code unit below 256; the ones that \<open>trim\<close> removes in that range are the tab,
  the line feed, the vertical tab, the form feed, the carriage return, the space and the
  no-break space \<open>U+00A0\<close>. The other white space of JavaScript (\<open>U+1680\<close>, \<open>U+2000\<close> to
  \<open>U+200A\<close>, \<open>U+2028\<close>, \<open>U+2029\<close>, \<open>U+202F\<close>, \<open>U+205F\<close>, \<open>U+3000\<close>, \<open>U+FEFF\<close>) lies outside it.
\<close>

definition js_whitespace :: "char \<Rightarrow> bool" where
  "js_whitespace c \<longleftrightarrow>
     c \<in> {CHR 0x09, CHR 0x0A, CHR 0x0B, CHR 0x0C, CHR 0x0D, CHR '' '', CHR 0xA0}"

definition js_trim :: "string \<Rightarrow> string" where
  "js_trim s = rev (dropWhile js_whitespace (rev (dropWhile js_whitespace s)))"

text \<open>The test \<open>chunk.text && chunk.text.trim().length > 0\<close> of the transcript ingestion.\<close>

definition nonblank :: "string \<Rightarrow> bool" where
  "nonblank t \<longleftrightarrow> t \<noteq> [] \<and> length (js_trim t) > 0"

text \<open>A row of the relational table \<open>transcript_chunks\<close>, as passed by \<open>VideoService\<close>.\<close>

record transcript_chunk =
  tc_id :: int
  tc_text :: string
  tc_chunkIndex :: int

text \<open>The \<open>for\<close> loop of \<open>processVideoTranscriptChunks\<close>, which fills \<open>vectorData\<close>.\<close>

fun embedTranscriptChunks ::
  "env \<Rightarrow> int \<Rightarrow> int \<Rightarrow> transcript_chunk list \<Rightarrow> video_row list \<Rightarrow> video_row list action" where
  "embedTranscriptChunks ev vid subjId [] vectorData s = Return vectorData s"
| "embedTranscriptChunks ev vid subjId (chunk # rest) vectorData s =
     (if nonblank (tc_text chunk)
      then (case getEmbedding ev (tc_text chunk) s of
              Throw e s1 \<Rightarrow> Throw e s1
            | Return embedding s1 \<Rightarrow>
                embedTranscriptChunks ev vid subjId rest
                  (vectorData @
                    [\<lparr>v_vector = embedding, v_text = tc_text chunk, v_videoId = vid,
                      v_chunkId = (if tc_id chunk \<noteq> 0 then tc_id chunk else tc_chunkIndex chunk),
                      v_startTime = 0, v_endTime = 0, v_subjectId = subjId,
                      v_createdAt = Some (now ev)\<rparr>]) s1)
      else embedTranscriptChunks ev vid subjId rest vectorData s)"

definition processVideoTranscriptChunks ::
  "env \<Rightarrow> int \<Rightarrow> int \<Rightarrow> transcript_chunk list \<Rightarrow> nat action" where
  "processVideoTranscriptChunks ev vid subjId transcriptChunks =
     andThen (\<lambda>s. if \<not> videoTable s then initialize ev s else Return () s) (\<lambda>_.
     andThen (embedTranscriptChunks ev vid subjId transcriptChunks []) (\<lambda>vectorData.
     andThen (if length vectorData > 0 then video_add ev vectorData else Return ()) (\<lambda>_.
     Return (length vectorData))))"

section \<open>Deletion and expiry\<close>

text \<open>
  The condition \<open>"isTemporary" = true AND "createdAt" < 'cutoffDate'\<close> of the sweep, as
  the service writes it.
\<close>

definition expired_condition :: "string \<Rightarrow> condition" where
  "expired_condition cutoffDate =
     AndAlso (Compare (DoubleQuoted ''isTemporary'') Equals (BoolLiteral True))
             (Compare (DoubleQuoted ''createdAt'') Less (SingleQuoted cutoffDate))"

text \<open>
  The three calls to the store are three awaited calls; the model runs the sweep alone,
  without another writer between the two counts.
\<close>

definition cleanupExpiredTemporaryVectors :: "env \<Rightarrow> int action" where
  "cleanupExpiredTemporaryVectors ev =
     andThen (\<lambda>s. if \<not> table s then initialize ev s else Return () s) (\<lambda>_.
       let twoHoursAgo = twoHoursBefore ev (now ev);
           cutoffDate = toISOString twoHoursAgo
       in andThen (doc_countRows ev) (\<lambda>beforeCount.
          andThen (doc_delete ev (expired_condition cutoffDate)) (\<lambda>_.
          andThen (doc_countRows ev) (\<lambda>afterCount.
          Return (int beforeCount - int afterCount)))))"

text \<open>
  The loop of \<open>deleteVideoVectors\<close> over \<open>recordsToDelete\<close>, with its inner \<open>try\<close>; the
  condition is \<open>vector = [x1,x2,...]\<close>.
\<close>

fun deleteEach :: "env \<Rightarrow> video_row list \<Rightarrow> nat \<Rightarrow> nat action" where
  "deleteEach ev [] deletedCount s = Return deletedCount s"
| "deleteEach ev (rcd # rest) deletedCount s =
     (case video_delete ev (Compare (Bare ''vector'') Equals (ListLiteral (v_vector rcd))) s of
        Throw e s1 \<Rightarrow> deleteEach ev rest deletedCount s1
      | Return _ s1 \<Rightarrow> deleteEach ev rest (deletedCount + 1) s1)"

definition deleteVideoVectors :: "env \<Rightarrow> int \<Rightarrow> nat action" where
  "deleteVideoVectors ev vid =
     andThen (\<lambda>s. if \<not> videoTable s then initialize ev s else Return () s) (\<lambda>_.
     tryCatch
       (andThen (video_scan ev) (\<lambda>allRecords.
          let recordsToKeep = filter (\<lambda>r. v_videoId r \<noteq> vid) allRecords;
              recordsToDelete = filter (\<lambda>r. v_videoId r = vid) allRecords
          in if length recordsToDelete = 0 then Return 0
             else if length recordsToKeep = 0
             then
               andThen (dropTable ev ''video_transcripts'') (\<lambda>_.
               andThen (createTable_video_transcripts ev [init_video ev]) (\<lambda>_.
               andThen (tryCatch (video_delete ev text_is_init)
                                 (\<lambda>e. Return ())) (\<lambda>_.
               Return (length recordsToDelete))))
             else deleteEach ev recordsToDelete 0))
       (\<lambda>error. Return 0))"

subsection \<open>Deleting a video\<close>

text \<open>
  \<open>VideoService.deleteVideo\<close> and its collaborators: \<open>videoStorage.getVideo\<close> (the model
  keeps whether the row exists), \<open>VideoProcessor.deleteVideo\<close>, which unlinks the file and
  swallows every error, and \<open>videoStorage.deleteVideo\<close>, which deletes the transcript
  chunks and then the row of the video.
\<close>

definition getVideo :: "env \<Rightarrow> int \<Rightarrow> bool action" where
  "getVideo ev vid = external ev StorageError (\<lambda>s. Some (vid \<in> set (videos_rows s), s))"

definition VideoProcessor_deleteVideo :: "env \<Rightarrow> unit action" where
  "VideoProcessor_deleteVideo ev =
     tryCatch (external ev FileError (\<lambda>s. Some ((), s))) (\<lambda>error. Return ())"

definition videoStorage_deleteVideo :: "env \<Rightarrow> int \<Rightarrow> unit action" where
  "videoStorage_deleteVideo ev vid =
     andThen (external ev StorageError (\<lambda>s. Some ((), s))) (\<lambda>_.
     external ev StorageError
       (\<lambda>s. Some ((), s\<lparr>videos_rows := filter (\<lambda>v. v \<noteq> vid) (videos_rows s)\<rparr>)))"

definition deleteVideo :: "env \<Rightarrow> int \<Rightarrow> unit action" where
  "deleteVideo ev vid =
     andThen (getVideo ev vid) (\<lambda>video.
     andThen (if video then VideoProcessor_deleteVideo ev else Return ()) (\<lambda>_.
     andThen (deleteVideoVectors ev vid) (\<lambda>_.
     videoStorage_deleteVideo ev vid)))"

section \<open>Sample data\<close>

text \<open>A temporary chunk uploaded by user 9 in session 100.\<close>

definition stranger_hit :: doc_hit where
  "stranger_hit = \<lparr>vector = [], rowText = ''Bai tap ham so'', documentId = 50, chunkIndex = 0,
     subjectId = 2, userId = 9, sessionId = 100, isTemporary = True,
     createdAt = Some 0, distance = Some 0.25\<rparr>"

text \<open>A chunk flagged temporary whose owner fields are both \<open>0\<close>.\<close>

definition ambiguous_hit :: doc_hit where
  "ambiguous_hit = \<lparr>vector = [], rowText = ''Vi du ham so bac 1'', documentId = 51,
     chunkIndex = 0, subjectId = 2, userId = 0, sessionId = 0, isTemporary = True,
     createdAt = Some 0, distance = Some 0.5\<rparr>"

text \<open>A chunk of a permanent document of the given subject.\<close>

definition curated_hit :: "int \<Rightarrow> doc_hit" where
  "curated_hit subj = \<lparr>vector = [], rowText = ''Dinh nghia ham so'', documentId = 7,
     chunkIndex = 0, subjectId = subj, userId = 0, sessionId = 0, isTemporary = False,
     createdAt = Some 0, distance = Some 0.5\<rparr>"

definition one_hit_store :: "doc_hit \<Rightarrow> store" where
  "one_hit_store h =
     \<lparr>docSearch = (\<lambda>q n. Inr [h]), videoSearch = (\<lambda>q w n. Inr []), clock = 0\<rparr>"


text \<open>Two transcript chunks at the same distance; the store lists the one of video 6 first.\<close>

definition lecture_hit :: "int \<Rightarrow> video_hit" where
  "lecture_hit vid = \<lparr>v_vector = [], v_text = ''ham so'', v_videoId = vid, v_chunkId = 1,
     v_startTime = 0, v_endTime = 0, v_subjectId = 2, v_createdAt = Some 0,
     v_distance = Some 0.4\<rparr>"

definition lecture_result :: "int \<Rightarrow> real \<Rightarrow> transcript_result" where
  "lecture_result vid sc =
     \<lparr>t_text = ''ham so'', t_videoId = vid, t_chunkId = 1, t_subjectId = 2, t_score = sc\<rparr>"

definition tie_store :: "int \<Rightarrow> store" where
  "tie_store cur =
     \<lparr>docSearch = (\<lambda>q n. Inr []),
      videoSearch = (\<lambda>q w n. Inr [lecture_hit 6, lecture_hit cur]), clock = 0\<rparr>"

text \<open>A store with documents of the subjects 0 and 2 and transcripts of subject 2.\<close>

definition subject_store :: store where
  "subject_store =
     \<lparr>docSearch = (\<lambda>q n. Inr [curated_hit 0, curated_hit 2]),
      videoSearch = (\<lambda>q w n. Inr [lecture_hit 6, lecture_hit 5]), clock = 0\<rparr>"

text \<open>
  An environment in which no call fails, and one in which the first call does; the store
  evaluates a comparison between values of different types to false and the local time
  zone has a constant offset. In the third environment the store rejects such a
  comparison.
\<close>

definition ev_ok :: env where
  "ev_ok = \<lparr>fails = (\<lambda>i. False), embed = (\<lambda>t. [1]), now = 10000000,
     strictTypes = False, twoHoursBefore = (\<lambda>t. t - 7200000)\<rparr>"

definition ev_first_fails :: env where
  "ev_first_fails = \<lparr>fails = (\<lambda>i. i = 0), embed = (\<lambda>t. [1]), now = 10000000,
     strictTypes = False, twoHoursBefore = (\<lambda>t. t - 7200000)\<rparr>"

definition ev_strict :: env where
  "ev_strict = \<lparr>fails = (\<lambda>i. False), embed = (\<lambda>t. [1]), now = 10000000,
     strictTypes = True, twoHoursBefore = (\<lambda>t. t - 7200000)\<rparr>"

definition permanent_row :: doc_row where
  "permanent_row = \<lparr>vector = [1], rowText = ''Dinh nghia ham so'', documentId = 7,
     chunkIndex = 0, subjectId = 2, userId = 0, sessionId = 0, isTemporary = False,
     createdAt = Some 0\<rparr>"

definition upload_row :: "int \<Rightarrow> doc_row" where
  "upload_row t = \<lparr>vector = [1], rowText = ''Bai tap ham so'', documentId = 50,
     chunkIndex = 0, subjectId = 2, userId = 9, sessionId = 100, isTemporary = True,
     createdAt = Some t\<rparr>"

definition lecture_row :: "int \<Rightarrow> video_row" where
  "lecture_row vid = \<lparr>v_vector = [1], v_text = ''ham so'', v_videoId = vid, v_chunkId = 1,
     v_startTime = 0, v_endTime = 0, v_subjectId = 2, v_createdAt = Some 0\<rparr>"

text \<open>
  The service object of a fresh process (both handles \<open>null\<close>) over a database that
  already holds indexed rows written with the full schema.
\<close>

definition s_restart :: service where
  "s_restart = \<lparr>tbl_documents = Some [permanent_row],
     tbl_video_transcripts = Some [lecture_row 5],
     table = False, videoTable = False, calls = 0, embedded = [], dropped = [], videos_rows = [5]\<rparr>"

text \<open>An initialised service with empty collections.\<close>

definition s_ready :: service where
  "s_ready = \<lparr>tbl_documents = Some [], tbl_video_transcripts = Some [],
     table = True, videoTable = True, calls = 0, embedded = [], dropped = [], videos_rows = []\<rparr>"

text \<open>
  An initialised service holding an old permanent row, a temporary row older than two
  hours and a temporary row of the last hour, and transcript rows of the videos 5 and 6.
\<close>

definition s_mixed :: service where
  "s_mixed = \<lparr>tbl_documents = Some [permanent_row, upload_row 0, upload_row 9000000],
     tbl_video_transcripts = Some [lecture_row 5, lecture_row 6],
     table = True, videoTable = True, calls = 0, embedded = [], dropped = [], videos_rows = [5, 6]\<rparr>"

section \<open>Auxiliary facts\<close>

lemmas store_defs = andThen_def tryCatch_def external_def connect_def tableNames_def
  dropTable_def createTable_documents_def createTable_video_transcripts_def doc_delete_def
  doc_countRows_def doc_add_def video_delete_def video_add_def video_scan_def
  getEmbedding_def markEmbedded_def

lemmas bucket_defs = temporaryDocs_pred_def permanentDocs_pred_def otherDocs_pred_def

lemma js_slice0_length: "0 \<le> e \<Longrightarrow> int (length (js_slice0 e xs)) \<le> e"
  by (simp add: js_slice0_def)

lemma set_js_slice0: "set (js_slice0 e xs) \<subseteq> set xs"
  by (auto simp: js_slice0_def dest: in_set_takeD)

lemma js_slice0_nth:
  "i < length (js_slice0 e xs) \<Longrightarrow> js_slice0 e xs ! i = xs ! i \<and> i < length xs"
  by (cases "e < 0") (simp_all add: js_slice0_def)

lemma mset_js_slice0: "mset (js_slice0 e xs) \<subseteq># mset xs"
proof -
  have "mset (take n xs) \<subseteq># mset xs" for n
  proof -
    have "mset xs = mset (take n xs) + mset (drop n xs)"
      by (metis append_take_drop_id mset_append)
    then show ?thesis by simp
  qed
  then show ?thesis by (simp add: js_slice0_def)
qed

lemma bitlen_eqI: "0 < w \<Longrightarrow> 2 ^ (nat w - 1) \<le> x \<Longrightarrow> x < 2 ^ nat w \<Longrightarrow> bitlen x = w"
  by (intro antisym) (auto simp: bitlen_le_iff_power bitlen_ge_iff_power)

text \<open>The split of seven requested results: five documents and two transcripts.\<close>

lemma docCount_7: "docCount 7 = 5"
proof -
  have "bitlen (22067638174115429 :: int) = 55"
    by (rule bitlen_eqI) simp_all
  then show ?thesis
    by (simp add: docCount_def times_0_7_def round53_def Let_def)
qed

lemma videoCount_7: "videoCount 7 = 2"
proof -
  have "bitlen (37830236869912165 :: int) = 56"
    by (rule bitlen_eqI) simp_all
  then show ?thesis
    by (simp add: videoCount_def times_0_3_def round53_def Let_def)
qed

section \<open>The document side of the video question answering\<close>

text \<open>
  Claim C1. The document list returned by \<open>searchCombinedForVideoQA\<close> is said to hold
  permanent chunks only, never a record with \<open>isTemporary = true\<close>. The code does not
  do this: \<open>searchDocuments\<close> passes no caller identity, and for an absent identity
  \<open>searchDocumentsWithContext\<close> concatenates the three buckets, the temporary chunks of
  other users among them, and labels every result \<open>permanent\<close>. On a store whose
  nearest neighbour is a temporary chunk of user 9, the call with subject 2 and seven
  requested results returns that chunk as a document.
\<close>

theorem video_qa_documents_include_temporary:
  "searchCombinedForVideoQA (one_hit_store stranger_hit) ''q'' (Some 2) 7 None =
     Inr \<lparr>videos = [],
          documents = [\<lparr>doc = stranger_hit, category = Permanent, score = 5.75\<rparr>],
          totalSources = 1, currentVideoId = None\<rparr>
   \<and> isTemporary stranger_hit = True"
  by (simp add: searchCombinedForVideoQA_def searchDocuments_def
      searchDocumentsWithContext_def searchVideoTranscripts_def one_hit_store_def
      js_slice0_def bucket_defs stranger_hit_def docCount_7 videoCount_7)

section \<open>Bucket predicates\<close>

lemma bucket_cases:
  assumes "\<not> (isTemporary r \<and> userId r = 0 \<and> sessionId r = 0)"
  shows "(temporaryDocs_pred uid sid r \<and> \<not> permanentDocs_pred r \<and> \<not> otherDocs_pred uid sid r) \<or>
    (\<not> temporaryDocs_pred uid sid r \<and> permanentDocs_pred r \<and> \<not> otherDocs_pred uid sid r) \<or>
    (\<not> temporaryDocs_pred uid sid r \<and> \<not> permanentDocs_pred r \<and> otherDocs_pred uid sid r)"
  using assms by (auto simp: bucket_defs)

lemma three_filters_mset:
  assumes "\<forall>x \<in> set xs. (P x \<and> \<not> Q x \<and> \<not> R x) \<or> (\<not> P x \<and> Q x \<and> \<not> R x)
                        \<or> (\<not> P x \<and> \<not> Q x \<and> R x)"
  shows "mset (filter P xs @ filter Q xs @ filter R xs) = mset xs"
  using assms by (induction xs) auto

lemma mset_doc_ranked:
  "mset (map doc (js_slice0 e (sort_key f M))) \<subseteq># mset (map doc M)"
proof -
  have "mset (map doc (js_slice0 e (sort_key f M))) \<subseteq># mset (map doc (sort_key f M))"
    using mset_js_slice0[of e "sort_key f M"] by (simp add: image_mset_subseteq_mono)
  then show ?thesis by simp
qed

lemma doc_scored: "map doc (map (scored c k) xs) = xs"
  by (induction xs) (simp_all add: scored_def)

lemma results_without_repetition:
  assumes raw: "docSearch st q (topK * 3) = Inr raw"
    and cons: "\<forall>h \<in> set raw. \<not> (isTemporary h \<and> userId h = 0 \<and> sessionId h = 0)"
    and out: "searchDocumentsWithContext st q subj uid sid topK = Inr out"
  shows "mset (map doc out) \<subseteq># mset raw"
proof -
  define results where
    "results = (case subj of None \<Rightarrow> raw | Some s \<Rightarrow> filter (\<lambda>r. subjectId r = s) raw)"
  define L where
    "L = filter (temporaryDocs_pred uid sid) results @ filter permanentDocs_pred results @
         filter (otherDocs_pred uid sid) results"
  have sub: "mset results \<subseteq># mset raw"
    by (cases subj) (simp_all add: results_def)
  then have "set results \<subseteq> set raw"
    by (metis set_mset_mono set_mset_mset)
  with cons have "\<forall>x \<in> set results. \<not> (isTemporary x \<and> userId x = 0 \<and> sessionId x = 0)"
    by auto
  then have L: "mset L = mset results"
    unfolding L_def using bucket_cases by (intro three_filters_mset) blast
  have "\<exists>M. out = js_slice0 topK (sort_key (\<lambda>x. - score x) M) \<and> map doc M = L"
  proof (cases "uid = None \<or> sid = None")
    case True
    define M where "M = map (\<lambda>d. \<lparr>doc = d, category = Permanent,
        score = 1 - (case distance d of None \<Rightarrow> 0 | Some x \<Rightarrow> x) + 5\<rparr>) L"
    have "map doc M = L"
      unfolding M_def by (induction L) simp_all
    moreover from True raw out have "out = js_slice0 topK (sort_key (\<lambda>x. - score x) M)"
      by (simp add: searchDocumentsWithContext_def Let_def results_def L_def M_def)
    ultimately show ?thesis by blast
  next
    case False
    define M where
      "M = map (scored (clock st) Temporary) (filter (temporaryDocs_pred uid sid) results) @
           map (scored (clock st) Permanent) (filter permanentDocs_pred results) @
           map (scored (clock st) Other) (filter (otherDocs_pred uid sid) results)"
    have "map doc M = L"
      unfolding M_def L_def by (simp only: map_append doc_scored)
    moreover from False raw out have "out = js_slice0 topK (sort_key (\<lambda>x. - score x) M)"
      by (auto simp: searchDocumentsWithContext_def Let_def results_def M_def)
    ultimately show ?thesis by blast
  qed
  then obtain M where "out = js_slice0 topK (sort_key (\<lambda>x. - score x) M)" "map doc M = L"
    by blast
  then have "mset (map doc out) \<subseteq># mset L"
    using mset_doc_ranked[of topK "\<lambda>x. - score x" M] by simp
  then show ?thesis
    using L sub by (metis subset_mset.order_trans)
qed

text \<open>
  Claim C2. Every chunk record is said to satisfy exactly one of the three bucket
  predicates, for every caller context, so that no record is returned twice. This fails
  for a record flagged temporary whose owner is \<open>(0, 0)\<close>: the second disjunct of the
  permanent predicate holds for it together with the temporary or the other predicate,
  and a query returns the record twice.
\<close>

theorem buckets_overlap_for_zero_owner:
  "permanentDocs_pred ambiguous_hit \<and> otherDocs_pred None None ambiguous_hit
   \<and> searchDocumentsWithContext (one_hit_store ambiguous_hit) ''q'' None None None 5 =
       Inr [\<lparr>doc = ambiguous_hit, category = Permanent, score = 5.5\<rparr>,
            \<lparr>doc = ambiguous_hit, category = Permanent, score = 5.5\<rparr>]"
  by (simp add: bucket_defs ambiguous_hit_def searchDocumentsWithContext_def
      one_hit_store_def js_slice0_def)

text \<open>
  Claim C2, amended. For a record that is not both flagged temporary and owned by
  \<open>(0, 0)\<close>, exactly one of the three predicates holds, for every caller context, the
  anonymous one included; and when the store returns such records only, the records of a
  result are a sub-multiset of the records the store returned: none is returned more
  often than the store delivered it.
\<close>

theorem buckets_exclusive_for_consistent_owner:
  "(\<not> (isTemporary r \<and> userId r = 0 \<and> sessionId r = 0) \<longrightarrow>
      (temporaryDocs_pred uid sid r \<and> \<not> permanentDocs_pred r \<and> \<not> otherDocs_pred uid sid r) \<or>
      (\<not> temporaryDocs_pred uid sid r \<and> permanentDocs_pred r \<and> \<not> otherDocs_pred uid sid r) \<or>
      (\<not> temporaryDocs_pred uid sid r \<and> \<not> permanentDocs_pred r \<and> otherDocs_pred uid sid r))
   \<and> (docSearch st q (topK * 3) = Inr raw
        \<and> (\<forall>h \<in> set raw. \<not> (isTemporary h \<and> userId h = 0 \<and> sessionId h = 0))
        \<and> searchDocumentsWithContext st q subj uid sid topK = Inr out
       \<longrightarrow> mset (map doc out) \<subseteq># mset raw)"
  using bucket_cases[of r uid sid] results_without_repetition[of st q topK raw subj uid sid out]
  by blast

theorem buckets_exclusive_for_consistent_owner_witness:
  "\<not> temporaryDocs_pred None None stranger_hit \<and> \<not> permanentDocs_pred stranger_hit
   \<and> otherDocs_pred None None stranger_hit
   \<and> mset (map doc [\<lparr>doc = stranger_hit, category = Permanent, score = 5.75\<rparr>])
        \<subseteq># mset [stranger_hit]"
proof -
  have r: "docSearch (one_hit_store stranger_hit) ''q'' (5 * 3) = Inr [stranger_hit]"
    by (simp add: one_hit_store_def)
  have o: "searchDocumentsWithContext (one_hit_store stranger_hit) ''q'' None None None 5 =
      Inr [\<lparr>doc = stranger_hit, category = Permanent, score = 5.75\<rparr>]"
    by (simp add: searchDocumentsWithContext_def one_hit_store_def js_slice0_def bucket_defs
        stranger_hit_def)
  have c: "\<not> (isTemporary stranger_hit \<and> userId stranger_hit = 0 \<and> sessionId stranger_hit = 0)"
    by (simp add: stranger_hit_def)
  have p: "\<not> permanentDocs_pred stranger_hit" "\<not> temporaryDocs_pred None None stranger_hit"
    by (simp_all add: bucket_defs stranger_hit_def)
  from buckets_exclusive_for_consistent_owner
         [of stranger_hit None None "one_hit_store stranger_hit" "''q''" 5 "[stranger_hit]" None
             "[\<lparr>doc = stranger_hit, category = Permanent, score = 5.75\<rparr>]"]
       r o c p
  show ?thesis by simp
qed

section \<open>Initialisation and the collections\<close>

text \<open>
  The three conditions that the service writes, as the store reads them. The quoted
  words of the first two are string literals: \<open>'text' = 'init'\<close> is false on every row,
  and \<open>'isTemporary' = true\<close> compares a string with a boolean. The third compares the
  vector column with a list.
\<close>

lemma holds_text_is_init:
  "holds b columns text_is_init = Some False"
  by (simp add: text_is_init_def read_operand_def compare_cells_def)

lemma holds_expired_condition:
  "holds b columns (expired_condition w) = (if b then None else Some False)"
  by (simp add: expired_condition_def read_operand_def compare_cells_def)

lemma holds_vector_equals:
  "holds b (video_columns r) (Compare (Bare ''vector'') Equals (ListLiteral v)) = None"
  by (simp add: read_operand_def compare_cells_def video_columns_def)

text \<open>
  Claim C3. A collection is said to be dropped only when its schema is incompatible or
  missing and only at process start, and never by an operation that a user triggers. The
  code has no schema test: \<open>initialize\<close> drops each collection that exists, whatever its
  rows. Run at process start on a database whose collections hold rows written with the
  full schema, it leaves in each collection the placeholder row only (the clean-up that
  follows removes nothing). It also runs whenever an operation finds its table handle
  \<open>null\<close>: when the start-up initialisation was rejected (here because the first call to
  the store failed) a later ingestion runs it again and drops the rows that were indexed
  before.
\<close>

theorem initialize_drops_existing_collections:
  "initialize ev_ok s_restart =
     Return () (s_restart\<lparr>tbl_documents := Some [init_doc ev_ok],
                  tbl_video_transcripts := Some [init_video ev_ok],
                  table := True, videoTable := True, calls := 8,
                  dropped := [''documents'', ''video_transcripts'']\<rparr>)
   \<and> initialize ev_first_fails s_restart = Throw StoreError (s_restart\<lparr>calls := 1\<rparr>)
   \<and> processDocumentChunks ev_first_fails 8 2 [''Vi du''] None None False
         (s_restart\<lparr>calls := 1\<rparr>) =
       Return () (s_restart\<lparr>
         tbl_documents := Some [init_doc ev_first_fails,
           \<lparr>vector = [1], rowText = ''Vi du'', documentId = 8,
            chunkIndex = 0, subjectId = 2, userId = 0, sessionId = 0, isTemporary = False,
            createdAt = Some 10000000\<rparr>],
         tbl_video_transcripts := Some [init_video ev_first_fails],
         table := True, videoTable := True,
         calls := 12, embedded := [''Vi du''],
         dropped := [''documents'', ''video_transcripts'']\<rparr>)
   \<and> permanent_row \<noteq> init_doc ev_ok \<and> lecture_row 5 \<noteq> init_video ev_ok"
  by (simp add: initialize_def processDocumentChunks_def store_defs holds_text_is_init
      ev_ok_def ev_first_fails_def s_restart_def permanent_row_def lecture_row_def
      init_doc_def init_video_def)

text \<open>
  Whatever the collections hold, an initialisation in which no call fails drops each
  collection that exists and ends with the placeholder row as the only row of each
  collection.
\<close>

lemma initialize_discards_rows:
  assumes "\<forall>i. \<not> fails ev i"
  shows "\<exists>s'. initialize ev s = Return () s' \<and> tbl_documents s' = Some [init_doc ev]
          \<and> tbl_video_transcripts s' = Some [init_video ev] \<and> table s' \<and> videoTable s'
          \<and> dropped s' = dropped s
                @ (if tbl_documents s \<noteq> None then [''documents''] else [])
                @ (if tbl_video_transcripts s \<noteq> None then [''video_transcripts''] else [])"
  using assms
  by (cases "tbl_documents s"; cases "tbl_video_transcripts s")
     (simp_all add: initialize_def store_defs holds_text_is_init)

section \<open>Composite scores\<close>








section \<open>Chunk ingestion\<close>

lemma getEmbedding_embedded:
  "getEmbedding ev t s = Return v s' \<Longrightarrow> embedded s' = embedded s @ [t]"
  by (cases "fails ev (calls s)") (auto simp: getEmbedding_def external_def Let_def)

text \<open>
  The loop of the transcript ingestion sends exactly the non-blank texts to the embedding
  provider and builds exactly one row for each of them.
\<close>

lemma embedTranscriptChunks_skips_blank:
  "embedTranscriptChunks ev vid subjId chunks acc s = Return out s' \<Longrightarrow>
     embedded s' = embedded s @ filter nonblank (map tc_text chunks)
     \<and> map v_text out = map v_text acc @ filter nonblank (map tc_text chunks)"
proof (induction chunks arbitrary: acc s)
  case Nil
  then show ?case by simp
next
  case (Cons c cs)
  show ?case
  proof (cases "nonblank (tc_text c)")
    case False
    with Cons.prems have "embedTranscriptChunks ev vid subjId cs acc s = Return out s'"
      by simp
    from Cons.IH[OF this] False show ?thesis by simp
  next
    case True
    show ?thesis
    proof (cases "getEmbedding ev (tc_text c) s")
      case (Throw e s1)
      with True Cons.prems show ?thesis by simp
    next
      case (Return emb s1)
      then have e1: "embedded s1 = embedded s @ [tc_text c]"
        by (rule getEmbedding_embedded)
      from Return True Cons.prems obtain acc' where
        "embedTranscriptChunks ev vid subjId cs acc' s1 = Return out s'"
        "map v_text acc' = map v_text acc @ [tc_text c]"
        by simp
      from Cons.IH[OF this(1)] this(2) e1 True show ?thesis by simp
    qed
  qed
qed

text \<open>
  Claim C5. Ingestion is said to embed and index the non-empty chunks only, for documents
  and for transcripts. The transcript path tests each chunk (see
  \<open>embedTranscriptChunks_skips_blank\<close>); the document path tests only whether the list is
  empty. For the chunk list of one string of three spaces, \<open>processDocumentChunks\<close>
  sends the blank string to the embedding provider and adds a row for it, while
  \<open>processVideoTranscriptChunks\<close> on the same text makes no call and adds nothing.
\<close>

theorem document_ingestion_indexes_blank_chunk:
  "processDocumentChunks ev_ok 7 2 [''   ''] None None False s_ready =
     Return () (s_ready\<lparr>
       tbl_documents := Some [\<lparr>vector = [1], rowText = ''   '', documentId = 7,
         chunkIndex = 0, subjectId = 2, userId = 0, sessionId = 0, isTemporary = False,
         createdAt = Some 10000000\<rparr>],
       calls := 3, embedded := [''   '']\<rparr>)
   \<and> processVideoTranscriptChunks ev_ok 5 2
         [\<lparr>tc_id = 1, tc_text = ''   '', tc_chunkIndex = 0\<rparr>] s_ready =
       Return 0 s_ready"
  by (simp add: processDocumentChunks_def processVideoTranscriptChunks_def store_defs
      ev_ok_def s_ready_def nonblank_def js_trim_def js_whitespace_def)

section \<open>The expiry sweep\<close>

lemmas iso_defs = toISOString_def date_text_def time_text_def year_text_def utc_year_def
  utc_month_def utc_date_def mp_def doy_def yoe_def doe_def era_def pad2_def pad3_def
  pad4_def pad6_def dg_def

text \<open>
  On a service whose table handle is set, the sweep changes no row of the \<open>documents\<close>
  collection, whatever the rows, the clock and the failing calls: it returns \<open>0\<close> or it
  throws.
\<close>

lemma sweep_changes_no_row:
  assumes "table s"
  shows "(\<exists>s'. cleanupExpiredTemporaryVectors ev s = Return 0 s'
              \<and> tbl_documents s' = tbl_documents s)
       \<or> (\<exists>e s'. cleanupExpiredTemporaryVectors ev s = Throw e s'
              \<and> tbl_documents s' = tbl_documents s)"
  using assms
  by (cases "tbl_documents s")
     (auto simp: cleanupExpiredTemporaryVectors_def store_defs holds_expired_condition Let_def)

text \<open>
  Claim C6. After the sweep no row is said to remain that is flagged temporary and was
  created more than two hours before, the rows that are not flagged temporary are said to
  be unchanged, and the number returned is said to be the number of rows removed. The
  condition that the service sends is \<open>"isTemporary" = true AND "createdAt" < 'cutoff'\<close>,
  and the store reads the two double-quoted words as string literals, not as columns. On
  an initialised service that holds a temporary row created at \<open>00:00:00\<close>, swept at
  \<open>02:46:40\<close> with the cutoff \<open>00:46:40\<close>, the sweep returns \<open>0\<close> and the row remains when
  the store evaluates the comparison of a string with a boolean to false, and the sweep
  throws when the store rejects that comparison. On a service whose table handle is
  \<open>null\<close> the sweep first runs \<open>initialize\<close>: the row that is not flagged temporary is
  gone, and the sweep returns \<open>0\<close>.
\<close>

theorem sweep_keeps_expired_temporary_row:
  "cleanupExpiredTemporaryVectors ev_ok s_mixed = Return 0 (s_mixed\<lparr>calls := 3\<rparr>)
   \<and> cleanupExpiredTemporaryVectors ev_strict s_mixed =
       Throw StoreError (s_mixed\<lparr>calls := 2\<rparr>)
   \<and> tbl_documents s_mixed = Some [permanent_row, upload_row 0, upload_row 9000000]
   \<and> isTemporary (upload_row 0) = True
   \<and> time_cell (createdAt (upload_row 0)) = StrCell ''1970-01-01T00:00:00.000Z''
   \<and> toISOString (now ev_ok) = ''1970-01-01T02:46:40.000Z''
   \<and> toISOString (twoHoursBefore ev_ok (now ev_ok)) = ''1970-01-01T00:46:40.000Z''
   \<and> str_less ''1970-01-01T00:00:00.000Z'' ''1970-01-01T00:46:40.000Z''
   \<and> cleanupExpiredTemporaryVectors ev_ok s_restart =
       Return 0 (s_restart\<lparr>tbl_documents := Some [init_doc ev_ok],
                   tbl_video_transcripts := Some [init_video ev_ok],
                   table := True, videoTable := True, calls := 11,
                   dropped := [''documents'', ''video_transcripts'']\<rparr>)
   \<and> tbl_documents s_restart = Some [permanent_row]
   \<and> isTemporary permanent_row = False"
proof -
  have a: "cleanupExpiredTemporaryVectors ev_ok s_mixed = Return 0 (s_mixed\<lparr>calls := 3\<rparr>)"
    by (simp add: cleanupExpiredTemporaryVectors_def store_defs holds_expired_condition
        Let_def ev_ok_def s_mixed_def)
  have b: "cleanupExpiredTemporaryVectors ev_strict s_mixed =
       Throw StoreError (s_mixed\<lparr>calls := 2\<rparr>)"
    by (simp add: cleanupExpiredTemporaryVectors_def store_defs holds_expired_condition
        Let_def ev_strict_def s_mixed_def)
  have c: "tbl_documents s_mixed = Some [permanent_row, upload_row 0, upload_row 9000000]"
    "isTemporary (upload_row 0) = True"
    "tbl_documents s_restart = Some [permanent_row]"
    "isTemporary permanent_row = False"
    by (simp_all add: s_mixed_def s_restart_def upload_row_def permanent_row_def)
  have d: "time_cell (createdAt (upload_row 0)) = StrCell ''1970-01-01T00:00:00.000Z''"
    by (simp add: time_cell_def upload_row_def iso_defs)
  have e: "toISOString (now ev_ok) = ''1970-01-01T02:46:40.000Z''"
    by (simp add: ev_ok_def iso_defs)
  have f: "toISOString (twoHoursBefore ev_ok (now ev_ok)) = ''1970-01-01T00:46:40.000Z''"
    by (simp add: ev_ok_def iso_defs)
  have g: "str_less ''1970-01-01T00:00:00.000Z'' ''1970-01-01T00:46:40.000Z''"
    by simp
  have h: "cleanupExpiredTemporaryVectors ev_ok s_restart =
       Return 0 (s_restart\<lparr>tbl_documents := Some [init_doc ev_ok],
                   tbl_video_transcripts := Some [init_video ev_ok],
                   table := True, videoTable := True, calls := 11,
                   dropped := [''documents'', ''video_transcripts'']\<rparr>)"
    by (simp add: cleanupExpiredTemporaryVectors_def initialize_def store_defs
        holds_expired_condition holds_text_is_init Let_def ev_ok_def s_restart_def)
  from a b c d e f g h show ?thesis
    by simp
qed

section \<open>Boosting the current video\<close>

lemma takeWhile_insort_key_subset:
  "z \<in> set (takeWhile P (insort_key f x xs)) \<Longrightarrow> z = x \<or> z \<in> set (takeWhile P xs)"
proof (induction xs)
  case Nil
  then show ?case by (cases "P x") simp_all
next
  case (Cons y ys)
  show ?case
  proof (cases "f x \<le> f y")
    case True
    with Cons.prems show ?thesis by (cases "P x") simp_all
  next
    case False
    with Cons.prems Cons.IH show ?thesis by (cases "P y") auto
  qed
qed

lemma insort_key_first:
  "f c \<le> f v \<Longrightarrow> v \<notin> set (takeWhile (\<lambda>z. z \<noteq> c) (insort_key f c xs))"
  by (induction xs) auto

text \<open>
  A stable sort keeps \<open>c\<close> in front of \<open>v\<close> when the key of \<open>c\<close> is not larger: if no
  \<open>v\<close> stands before the first \<open>c\<close> in the input, none does in the output.
\<close>

lemma sort_key_keeps_before:
  assumes "f c \<le> f v"
  shows "v \<notin> set (takeWhile (\<lambda>z. z \<noteq> c) xs) \<Longrightarrow>
         v \<notin> set (takeWhile (\<lambda>z. z \<noteq> c) (sort_key f xs))"
proof (induction xs)
  case Nil
  then show ?case by simp
next
  case (Cons x xs)
  show ?case
  proof (cases "x = c")
    case True
    then show ?thesis
      using insort_key_first[where f = f and c = c and v = v, OF assms] by simp
  next
    case False
    with Cons.prems have "x \<noteq> v" and "v \<notin> set (takeWhile (\<lambda>z. z \<noteq> c) xs)"
      by auto
    with Cons.IH have "v \<notin> set (takeWhile (\<lambda>z. z \<noteq> c) (sort_key f xs))"
      by simp
    with \<open>x \<noteq> v\<close> show ?thesis
      using takeWhile_insort_key_subset[of v "\<lambda>z. z \<noteq> c" f x "sort_key f xs"] by auto
  qed
qed

lemma earlier_occurrence:
  assumes "v \<notin> set (takeWhile (\<lambda>z. z \<noteq> c) xs)" and "i < length xs" and "xs ! i = v"
  shows "\<exists>j\<le>i. xs ! j = c"
proof (rule ccontr)
  assume "\<not> (\<exists>j\<le>i. xs ! j = c)"
  then have "\<And>j. j < Suc i \<Longrightarrow> xs ! j \<noteq> c"
    by auto
  then have len: "Suc i \<le> length (takeWhile (\<lambda>z. z \<noteq> c) xs)"
    using assms(2) by (intro length_takeWhile_less_P_nth) auto
  then have "takeWhile (\<lambda>z. z \<noteq> c) xs ! i \<in> set (takeWhile (\<lambda>z. z \<noteq> c) xs)"
    by simp
  moreover have "takeWhile (\<lambda>z. z \<noteq> c) xs ! i = xs ! i"
    using len by (simp add: takeWhile_nth)
  ultimately show False
    using assms by simp
qed

text \<open>
  Claim C7. With a current video id supplied, a transcript candidate of the current video
  is said never to rank below a candidate of another video with the same raw distance.
  The code boosts only when the id is truthy: for the id \<open>0\<close> the candidates keep the
  order of the store. With two candidates at distance \<open>0.4\<close>, the one of video 6 listed
  first by the store, and the current video id \<open>0\<close>, the candidate of video 0 is
  returned second, with its distance unchanged.
\<close>

theorem video_id_zero_is_not_boosted:
  "searchCombinedForVideoQA (tie_store 0) ''q'' None 7 (Some 0) =
     Inr \<lparr>videos = [lecture_result 6 0.4, lecture_result 0 0.4], documents = [],
          totalSources = 2, currentVideoId = Some 0\<rparr>"
  by (simp add: searchCombinedForVideoQA_def searchDocuments_def
      searchDocumentsWithContext_def searchVideoTranscripts_def tie_store_def js_slice0_def
      lecture_hit_def lecture_result_def docCount_7 videoCount_7)

text \<open>
  Claim C7, amended. With a current video id other than \<open>0\<close>: whenever a candidate \<open>v\<close>
  of another video stands at position \<open>i\<close> of the returned transcript list, every
  candidate \<open>c\<close> of the current video with the same raw distance, that distance not
  being negative, stands at an earlier position, with half its distance as score.
\<close>

theorem current_video_ranks_first_on_ties:
  assumes "cur \<noteq> 0"
    and "searchVideoTranscripts st q subj (videoCount K + 3) = Inr found"
    and "searchCombinedForVideoQA st q subj K (Some cur) = Inr out"
    and "c \<in> set found" and "v \<in> set found"
    and "t_videoId c = cur" and "t_videoId v \<noteq> cur"
    and "t_score c = t_score v" and "0 \<le> t_score v"
    and "i < length (videos out)" and "videos out ! i = v"
  shows "\<exists>j<i. videos out ! j = c\<lparr>t_score := t_score c * 0.5\<rparr>"
proof -
  define boosted where
    "boosted = map (\<lambda>r. r\<lparr>t_score := t_score r * 0.5\<rparr>) (filter (\<lambda>r. t_videoId r = cur) found)"
  define others where "others = filter (\<lambda>r. t_videoId r \<noteq> cur) found"
  define c' where "c' = c\<lparr>t_score := t_score c * 0.5\<rparr>"
  define S where "S = sort_key t_score (boosted @ others)"
  have out: "videos out = js_slice0 (videoCount K) S"
    using assms(1,2,3)
    by (auto simp: searchCombinedForVideoQA_def Let_def S_def boosted_def others_def
        split: sum.splits)
  have c'in: "c' \<in> set boosted"
    using assms(4,6) by (auto simp: boosted_def c'_def)
  have "\<forall>x \<in> set boosted. t_videoId x = cur"
    by (auto simp: boosted_def)
  then have vnot: "v \<notin> set boosted"
    using assms(7) by auto
  have "takeWhile (\<lambda>z. z \<noteq> c') (boosted @ others) = takeWhile (\<lambda>z. z \<noteq> c') boosted"
    using c'in by (simp add: takeWhile_append1)
  then have "v \<notin> set (takeWhile (\<lambda>z. z \<noteq> c') (boosted @ others))"
    using vnot by (auto dest: set_takeWhileD)
  moreover have "t_score c' \<le> t_score v"
    using assms(8,9) by (simp add: c'_def)
  ultimately have "v \<notin> set (takeWhile (\<lambda>z. z \<noteq> c') S)"
    unfolding S_def by (rule sort_key_keeps_before[rotated])
  moreover have "i < length S" "S ! i = v"
    using assms(10,11) js_slice0_nth[of i "videoCount K" S] by (simp_all add: out)
  ultimately obtain j where j: "j \<le> i" "S ! j = c'"
    using earlier_occurrence[of v c' S i] by auto
  have "c' \<noteq> v"
    using assms(6,7) by (auto simp: c'_def)
  with j \<open>S ! i = v\<close> have "j < i"
    by (cases "j = i") auto
  moreover have "videos out ! j = S ! j"
    using assms(10) \<open>j < i\<close> js_slice0_nth[of j "videoCount K" S]
    by (simp add: out)
  ultimately show ?thesis
    using j by (auto simp: c'_def)
qed

theorem current_video_ranks_first_on_ties_witness:
  "searchCombinedForVideoQA (tie_store 5) ''q'' None 7 (Some 5) =
     Inr \<lparr>videos = [lecture_result 5 0.2, lecture_result 6 0.4], documents = [],
          totalSources = 2, currentVideoId = Some 5\<rparr>
   \<and> (\<exists>j<1. [lecture_result 5 0.2, lecture_result 6 0.4] ! j = lecture_result 5 0.2)"
proof -
  let ?out = "\<lparr>videos = [lecture_result 5 0.2, lecture_result 6 0.4], documents = [],
          totalSources = 2, currentVideoId = Some 5\<rparr>"
  have f: "searchVideoTranscripts (tie_store 5) ''q'' None (videoCount 7 + 3) =
      Inr [lecture_result 6 0.4, lecture_result 5 0.4]"
    by (simp add: searchVideoTranscripts_def tie_store_def lecture_hit_def lecture_result_def)
  have o: "searchCombinedForVideoQA (tie_store 5) ''q'' None 7 (Some 5) = Inr ?out"
    by (simp add: searchCombinedForVideoQA_def searchDocuments_def
        searchDocumentsWithContext_def searchVideoTranscripts_def tie_store_def js_slice0_def
        lecture_hit_def lecture_result_def docCount_7 videoCount_7)
  have "\<exists>j<1. videos ?out ! j = (lecture_result 5 0.4)\<lparr>t_score := t_score (lecture_result 5 0.4) * 0.5\<rparr>"
    by (rule current_video_ranks_first_on_ties[OF _ f o, of "lecture_result 5 0.4" "lecture_result 6 0.4"])
       (simp_all add: lecture_result_def)
  then have "\<exists>j<1. [lecture_result 5 0.2, lecture_result 6 0.4] ! j = lecture_result 5 0.2"
    by (simp add: lecture_result_def)
  with o show ?thesis by simp
qed

section \<open>The split between documents and transcripts\<close>

text \<open>
  Rounding to 53 significant bits: the result is the multiple of the unit below or the
  one above, at a distance of at most half a unit.
\<close>

lemma round53_cases:
  assumes "0 < bitlen n - 53"
  shows "round53 n = (n div 2 ^ nat (bitlen n - 53)) * 2 ^ nat (bitlen n - 53)
            \<and> 2 * (n mod 2 ^ nat (bitlen n - 53)) \<le> 2 ^ nat (bitlen n - 53)
       \<or> round53 n = (n div 2 ^ nat (bitlen n - 53) + 1) * 2 ^ nat (bitlen n - 53)
            \<and> 2 ^ nat (bitlen n - 53) \<le> 2 * (n mod 2 ^ nat (bitlen n - 53))"
  using assms by (auto simp: round53_def Let_def)

lemma round53_error:
  assumes "0 \<le> n" and "n < 2 ^ 102"
  shows "\<bar>round53 n - n\<bar> \<le> 2 ^ 48"
proof (cases "0 < bitlen n - 53")
  case False
  then show ?thesis by (simp add: round53_def)
next
  case True
  define s where "s = nat (bitlen n - 53)"
  define u :: int where "u = 2 ^ s"
  have "bitlen n \<le> 102"
    using assms(2) by (simp add: bitlen_le_iff_power)
  then have "s \<le> 49" by (simp add: s_def)
  then have "u \<le> 2 ^ 49"
    unfolding u_def by (intro power_increasing) simp_all
  then have u: "u \<le> 562949953421312" by simp
  have upos: "0 < u" by (simp add: u_def)
  have dm: "n = (n div u) * u + n mod u" by simp
  have r: "0 \<le> n mod u" "n mod u < u" using upos by simp_all
  from round53_cases[OF True]
  have "round53 n = (n div u) * u \<and> 2 * (n mod u) \<le> u
       \<or> round53 n = (n div u + 1) * u \<and> u \<le> 2 * (n mod u)"
    by (simp add: s_def u_def)
  then show ?thesis
  proof
    assume a: "round53 n = (n div u) * u \<and> 2 * (n mod u) \<le> u"
    then have "round53 n - n = - (n mod u)" using dm by linarith
    with a r u show ?thesis by simp
  next
    assume a: "round53 n = (n div u + 1) * u \<and> u \<le> 2 * (n mod u)"
    then have "round53 n - n = u - n mod u" using dm by (simp add: algebra_simps)
    with a r u show ?thesis by simp
  qed
qed

lemma round53_le_grid:
  assumes "0 \<le> n" and "n < 2 ^ 105" and "n \<le> g" and "2 ^ 52 dvd g"
  shows "round53 n \<le> g"
proof (cases "0 < bitlen n - 53")
  case False
  then show ?thesis using assms(3) by (simp add: round53_def)
next
  case True
  define s where "s = nat (bitlen n - 53)"
  define u :: int where "u = 2 ^ s"
  have "bitlen n \<le> 105"
    using assms(2) by (simp add: bitlen_le_iff_power)
  then have "s \<le> 52" by (simp add: s_def)
  then have "u dvd 2 ^ 52"
    unfolding u_def by (rule le_imp_power_dvd)
  then have "u dvd g" using assms(4) by (rule dvd_trans)
  then obtain k where k: "g = u * k" by (auto simp: dvd_def)
  have upos: "0 < u" by (simp add: u_def)
  have dm: "n = (n div u) * u + n mod u" by simp
  have r: "0 \<le> n mod u" "n mod u < u" using upos by simp_all
  have s1: "1 \<le> s" using True by (simp add: s_def)
  have "(2::int) ^ 1 \<le> 2 ^ s" using s1 by (intro power_increasing) simp_all
  then have u2: "2 \<le> u" by (simp add: u_def)
  from round53_cases[OF True]
  have "round53 n = (n div u) * u \<and> 2 * (n mod u) \<le> u
       \<or> round53 n = (n div u + 1) * u \<and> u \<le> 2 * (n mod u)"
    by (simp add: s_def u_def)
  then show ?thesis
  proof
    assume a: "round53 n = (n div u) * u \<and> 2 * (n mod u) \<le> u"
    then have "round53 n \<le> n" using dm r by linarith
    with assms(3) show ?thesis by simp
  next
    assume a: "round53 n = (n div u + 1) * u \<and> u \<le> 2 * (n mod u)"
    then have "0 < n mod u" using u2 by linarith
    then have "(n div u) * u < u * k" using dm assms(3) k by linarith
    then have "n div u < k" using upos by (simp add: mult.commute)
    then have "(n div u + 1) * u \<le> k * u"
      using upos by (intro mult_right_mono) simp_all
    with a k show ?thesis by (simp add: mult.commute)
  qed
qed

lemma round53_to_grid:
  assumes "0 < n" and "n < 2 ^ 107" and "n < g" and "2 ^ 54 dvd g"
    and "2 * (g - n) < 2 ^ nat (bitlen n - 53)"
  shows "round53 n = g"
proof -
  define s where "s = nat (bitlen n - 53)"
  define u :: int where "u = 2 ^ s"
  have gt: "2 * (g - n) < u" using assms(5) by (simp add: s_def u_def)
  have upos: "0 < u" by (simp add: u_def)
  have "2 < u" using gt assms(3) by arith
  then have True: "0 < bitlen n - 53"
    by (cases "0 < bitlen n - 53") (simp_all add: u_def s_def)
  have "bitlen n \<le> 107"
    using assms(2) by (simp add: bitlen_le_iff_power)
  then have "s \<le> 54" by (simp add: s_def)
  then have "u dvd 2 ^ 54"
    unfolding u_def by (rule le_imp_power_dvd)
  then have "u dvd g" using assms(4) by (rule dvd_trans)
  then obtain k where k: "g = u * k" by (auto simp: dvd_def)
  define d where "d = g - n"
  have d: "0 < d" "2 * d < u" using assms(3) gt by (simp_all add: d_def)
  have n: "n = u * (k - 1) + (u - d)" using k by (simp add: d_def algebra_simps)
  have q: "n div u = k - 1"
    using n d upos by (intro int_div_pos_eq[where r = "u - d"]) simp_all
  have r: "n mod u = u - d"
    using n d upos by (intro int_mod_pos_eq[where q = "k - 1"]) simp_all
  have "u < 2 * (n mod u)" using r d by linarith
  then have "round53 n = (n div u + 1) * u"
    using True by (simp add: round53_def Let_def s_def u_def)
  then show ?thesis using q k by (simp add: mult.commute)
qed

lemma round53_zero: "round53 0 = 0"
  by (simp add: round53_def)

lemma docCount_exact:
  assumes "0 \<le> K" and "K < 844424930131968"
  shows "docCount K = \<lceil>real_of_int K * 0.7\<rceil>"
proof (cases "K = 0")
  case True
  then show ?thesis by (simp add: docCount_def times_0_7_def round53_zero)
next
  case False
  with assms have pos: "0 < K" by simp
  define c where "c = \<lceil>real_of_int K * 0.7\<rceil>"
  define N where "N = K * 3152519739159347"
  define R where "R = round53 N"
  have "real_of_int K * 0.7 \<le> real_of_int c" "real_of_int c - 1 < real_of_int K * 0.7"
    unfolding c_def by linarith+
  then have "real_of_int (7 * K) \<le> real_of_int (10 * c)" "real_of_int (10 * (c - 1)) < real_of_int (7 * K)"
    by simp_all
  then have c: "7 * K \<le> 10 * c" "10 * (c - 1) < 7 * K"
    by linarith+
  have N10: "10 * N = 7 * K * 4503599627370496 - 2 * K"
    by (simp add: N_def)
  have N0: "0 \<le> N" using assms(1) by (simp add: N_def)
  have "N < 844424930131968 * 3152519739159347"
    unfolding N_def using assms(2) by simp
  then have Nlt: "N < 2 ^ 102" "N < 2 ^ 105" by simp_all
  have err: "\<bar>R - N\<bar> \<le> 281474976710656"
    using round53_error[OF N0 Nlt(1)] by (simp add: R_def)
  have lower: "(c - 1) * 4503599627370496 < R"
  proof -
    have "10 * ((c - 1) * 4503599627370496) + 4503599627370496 \<le> 7 * K * 4503599627370496"
      using c(2) by linarith
    then show ?thesis using N10 err assms(2) by linarith
  qed
  have upper: "R \<le> c * 4503599627370496"
  proof (cases "7 * K = 10 * c")
    case True
    then have "N \<le> c * 4503599627370496" using N10 pos by linarith
    moreover have "2 ^ 52 dvd c * (4503599627370496 :: int)" by simp
    ultimately show ?thesis
      unfolding R_def using N0 Nlt(2) by (intro round53_le_grid)
  next
    case False
    with c(1) have "7 * K + 1 \<le> 10 * c" by linarith
    then have "7 * K * 4503599627370496 + 4503599627370496 \<le> 10 * (c * 4503599627370496)"
      by linarith
    then show ?thesis using N10 err pos by linarith
  qed
  have "real_of_int R / 2 ^ 52 \<le> real_of_int c" "real_of_int c - 1 < real_of_int R / 2 ^ 52"
    using lower upper by (simp_all add: field_simps)
  then have "\<lceil>real_of_int R / 2 ^ 52\<rceil> = c"
    by (intro ceiling_unique) simp_all
  then show ?thesis
    using pos by (simp add: docCount_def times_0_7_def R_def N_def c_def)
qed

lemma videoCount_exact:
  assumes "0 \<le> K" and "K < 844424930131973"
  shows "videoCount K = \<lfloor>real_of_int K * 0.3\<rfloor>"
proof (cases "K = 0")
  case True
  then show ?thesis by (simp add: videoCount_def times_0_3_def round53_zero)
next
  case False
  with assms have pos: "0 < K" by simp
  define f where "f = \<lfloor>real_of_int K * 0.3\<rfloor>"
  define N where "N = K * 5404319552844595"
  define R where "R = round53 N"
  have "real_of_int f \<le> real_of_int K * 0.3" "real_of_int K * 0.3 < real_of_int f + 1"
    unfolding f_def by linarith+
  then have "real_of_int (10 * f) \<le> real_of_int (3 * K)" "real_of_int (3 * K) < real_of_int (10 * (f + 1))"
    by simp_all
  then have f: "10 * f \<le> 3 * K" "3 * K < 10 * (f + 1)"
    by linarith+
  have N10: "10 * N = 3 * K * 18014398509481984 - 2 * K"
    by (simp add: N_def)
  have N0: "0 < N" using pos by (simp add: N_def)
  have "N < 844424930131973 * 5404319552844595"
    unfolding N_def using assms(2) by simp
  then have Nlt: "N < 2 ^ 102" "N < 2 ^ 107" by simp_all
  have err: "\<bar>R - N\<bar> \<le> 281474976710656"
    using round53_error[OF _ Nlt(1)] N0 by (simp add: R_def)
  have upper: "R < (f + 1) * 18014398509481984"
  proof -
    have "3 * K * 18014398509481984 + 18014398509481984 \<le> 10 * ((f + 1) * 18014398509481984)"
      using f(2) by linarith
    then show ?thesis using N10 err pos by linarith
  qed
  have lower: "f * 18014398509481984 \<le> R"
  proof (cases "3 * K = 10 * f")
    case True
    define g where "g = f * 18014398509481984"
    have gN: "g - N = 2 * K div 10" "10 * (g - N) = 2 * K"
      using N10 True by (simp_all add: g_def)
    have "N < g" using gN(2) pos by arith
    moreover have "2 ^ 54 dvd g" by (simp add: g_def)
    moreover have "2 * (g - N) < 2 ^ nat (bitlen N - 53)"
    proof -
      have big: "2 * (g - N) * 2 ^ 53 \<le> N"
      proof -
        have "10 * (2 * (g - N) * 2 ^ 53) = 4 * K * 9007199254740992" using gN(2) by simp
        also have "\<dots> \<le> 10 * N" using N10 pos by linarith
        finally show ?thesis by simp
      qed
      have "N < 2 ^ nat (bitlen N)" using bitlen_bounds[OF N0] by simp
      moreover have "53 \<le> bitlen N"
      proof -
        have "10 \<le> K" using True pos by presburger
        then have "2 ^ 53 \<le> N" by (simp add: N_def)
        then show ?thesis by (simp add: bitlen_ge_iff_power)
      qed
      then have "nat (bitlen N) = nat (bitlen N - 53) + 53"
        by simp
      then have "(2::int) ^ nat (bitlen N) = 2 ^ nat (bitlen N - 53) * 2 ^ 53"
        by (simp only: power_add)
      ultimately have "2 * (g - N) * 2 ^ 53 < 2 ^ nat (bitlen N - 53) * (2 ^ 53 :: int)"
        using big by linarith
      then show ?thesis by simp
    qed
    ultimately have "R = g"
      unfolding R_def using N0 Nlt(2) by (intro round53_to_grid)
    then show ?thesis by (simp add: g_def)
  next
    case False
    with f(1) have "10 * f + 1 \<le> 3 * K" by linarith
    then have "10 * (f * 18014398509481984) + 18014398509481984 \<le> 3 * K * 18014398509481984"
      by linarith
    then show ?thesis using N10 err assms(2) by linarith
  qed
  have "real_of_int f \<le> real_of_int R / 2 ^ 54" "real_of_int R / 2 ^ 54 < real_of_int f + 1"
    using lower upper by (simp_all add: field_simps)
  then have "\<lfloor>real_of_int R / 2 ^ 54\<rfloor> = f"
    by (intro floor_unique) simp_all
  then show ?thesis
    using pos by (simp add: videoCount_def times_0_3_def R_def N_def f_def)
qed

lemma bitlen_102:
  assumes "2535301200456458802993406410752 \<le> n" and "n < 5070602400912917605986812821504"
  shows "bitlen n = 102"
  using assms by (intro bitlen_eqI) simp_all

lemma docCount_boundary:
  assumes "844424930131968 \<le> K" and "K < 844424930131973"
  shows "docCount K = \<lceil>real_of_int K * 0.7\<rceil>"
proof -
  from assms consider "K = 844424930131968" | "K = 844424930131969" | "K = 844424930131970"
    | "K = 844424930131971" | "K = 844424930131972"
    by arith
  then show ?thesis
    by cases (simp_all add: docCount_def times_0_7_def round53_def bitlen_102 Let_def)
qed

lemma round53_nonneg: "0 \<le> n \<Longrightarrow> 0 \<le> round53 n"
  by (auto simp: round53_def Let_def pos_imp_zdiv_nonneg_iff)

lemma docCount_nonneg: "0 \<le> K \<Longrightarrow> 0 \<le> docCount K"
proof -
  assume "0 \<le> K"
  then have "0 \<le> sgn K * round53 (\<bar>K\<bar> * 3152519739159347)"
    by (intro mult_nonneg_nonneg round53_nonneg) (simp_all add: sgn_if)
  then have "0 \<le> times_0_7 K"
    by (simp add: times_0_7_def del: of_int_mult)
  then show ?thesis
    unfolding docCount_def by linarith
qed

lemma videoCount_nonneg: "0 \<le> K \<Longrightarrow> 0 \<le> videoCount K"
proof -
  assume "0 \<le> K"
  then have "0 \<le> sgn K * round53 (\<bar>K\<bar> * 5404319552844595)"
    by (intro mult_nonneg_nonneg round53_nonneg) (simp_all add: sgn_if)
  then have "0 \<le> times_0_3 K"
    by (simp add: times_0_3_def del: of_int_mult)
  then show ?thesis
    unfolding videoCount_def by simp
qed

lemma counts_exact:
  assumes "0 \<le> K" and "K < 844424930131973"
  shows "docCount K = \<lceil>real_of_int K * 0.7\<rceil>" and "videoCount K = \<lfloor>real_of_int K * 0.3\<rfloor>"
    and "docCount K + videoCount K = K"
proof -
  show d: "docCount K = \<lceil>real_of_int K * 0.7\<rceil>"
    using assms docCount_exact[of K] docCount_boundary[of K] by (cases "K < 844424930131968") simp_all
  show v: "videoCount K = \<lfloor>real_of_int K * 0.3\<rfloor>"
    using assms by (rule videoCount_exact)
  have "\<lceil>real_of_int K * 0.7\<rceil> + \<lfloor>real_of_int K * 0.3\<rfloor> = K"
    by linarith
  with d v show "docCount K + videoCount K = K" by simp
qed

text \<open>
  For a requested number \<open>K \<ge> 0\<close> of results the returned documents are the answer of
  \<open>searchDocuments\<close> for \<open>docCount K\<close> results, the returned transcripts are taken from the
  answer of \<open>searchVideoTranscripts\<close> for \<open>videoCount K + 3\<close> results, and a returned
  result holds at most \<open>docCount K\<close> documents and at most \<open>videoCount K\<close> transcripts.
\<close>

lemma combined_lengths:
  assumes "0 \<le> K" and "searchCombinedForVideoQA st q subj K cur = Inr out"
  shows "searchDocuments st q subj (docCount K) = Inr (documents out)
       \<and> (\<exists>found. searchVideoTranscripts st q subj (videoCount K + 3) = Inr found
                  \<and> length (videos out) \<le> length found)
       \<and> int (length (documents out)) \<le> docCount K
       \<and> int (length (videos out)) \<le> videoCount K"
proof -
  have d0: "0 \<le> docCount K"
    using assms(1) by (rule docCount_nonneg)
  have v0: "0 \<le> videoCount K"
    using assms(1) by (rule videoCount_nonneg)
  obtain ds where ds: "searchDocuments st q subj (docCount K) = Inr ds"
    using assms(2) by (auto simp: searchCombinedForVideoQA_def Let_def split: sum.splits)
  have dl: "int (length ds) \<le> docCount K"
    using ds d0
    by (auto simp: searchDocuments_def searchDocumentsWithContext_def Let_def
        js_slice0_length split: sum.splits)
  have "documents out = ds"
    using assms(2) ds by (auto simp: searchCombinedForVideoQA_def Let_def split: sum.splits)
  moreover have "int (length (videos out)) \<le> videoCount K"
    using assms(2) v0
    by (auto simp: searchCombinedForVideoQA_def Let_def js_slice0_length
        split: sum.splits option.splits if_splits)
  moreover
  have "\<exists>found. searchVideoTranscripts st q subj (videoCount K + 3) = Inr found
                  \<and> length (videos out) \<le> length found"
  proof -
    obtain found where f: "searchVideoTranscripts st q subj (videoCount K + 3) = Inr found"
      using assms(2) ds by (auto simp: searchCombinedForVideoQA_def Let_def split: sum.splits)
    have "\<exists>M. videos out = js_slice0 (videoCount K) M \<and> length M = length found"
    proof (cases "\<exists>c. cur = Some c \<and> c \<noteq> 0")
      case True
      then obtain c where c: "cur = Some c" "c \<noteq> 0"
        by blast
      let ?M = "sort_key t_score
          (map (\<lambda>r. r\<lparr>t_score := t_score r * 0.5\<rparr>) (filter (\<lambda>r. t_videoId r = c) found) @
           filter (\<lambda>r. t_videoId r \<noteq> c) found)"
      have "videos out = js_slice0 (videoCount K) ?M"
        using assms(2) ds f c by (auto simp: searchCombinedForVideoQA_def Let_def)
      moreover have "length ?M = length found"
        using sum_length_filter_compl[of "\<lambda>r. t_videoId r = c" found] by simp
      ultimately show ?thesis
        by blast
    next
      case False
      then have "videos out = js_slice0 (videoCount K) found"
        using assms(2) ds f
        by (cases cur) (auto simp: searchCombinedForVideoQA_def Let_def)
      then show ?thesis
        by blast
    qed
    then obtain M where "videos out = js_slice0 (videoCount K) M" "length M = length found"
      by blast
    then have "length (videos out) \<le> length found"
      using set_js_slice0 by (cases "videoCount K < 0") (simp_all add: js_slice0_def)
    with f show ?thesis
      by blast
  qed
  ultimately show ?thesis
    using dl ds by simp
qed

text \<open>
  Claim C8. For every requested number \<open>K \<ge> 0\<close> of results the combiner is said to
  compute \<open>docCount = \<lceil>0.7 K\<rceil>\<close> and \<open>videoCount = \<lfloor>0.3 K\<rfloor>\<close>, which add up to \<open>K\<close>. The
  code computes the two products in double precision. For \<open>K = 844424930131973\<close> the
  product \<open>K * 0.7\<close> is rounded down to the integer \<open>591097451092381\<close>, one below the
  ceiling of the exact product, and the two counts add up to \<open>K - 1\<close>.
\<close>

theorem combined_counts_lose_one_result:
  "docCount 844424930131973 = 591097451092381
   \<and> \<lceil>real_of_int 844424930131973 * 0.7\<rceil> = (591097451092382 :: int)
   \<and> videoCount 844424930131973 = 253327479039591
   \<and> docCount 844424930131973 + videoCount 844424930131973 = 844424930131972"
proof -
  have "docCount 844424930131973 = 591097451092381"
    by (simp add: docCount_def times_0_7_def round53_def bitlen_102 Let_def)
  moreover have "videoCount 844424930131973 = 253327479039591"
    by (simp add: videoCount_def times_0_3_def round53_def bitlen_102 Let_def)
  moreover have "\<lceil>real_of_int 844424930131973 * 0.7\<rceil> = (591097451092382 :: int)"
    by (rule ceiling_unique) simp_all
  ultimately show ?thesis
    by simp
qed

text \<open>
  Claim C8, amended. For a requested number \<open>K\<close> of results with
  \<open>0 \<le> K < 844424930131973\<close> the combiner computes \<open>docCount = \<lceil>0.7 K\<rceil>\<close> and
  \<open>videoCount = \<lfloor>0.3 K\<rfloor>\<close>, the rounding of the two products notwithstanding, and the two
  counts add up to \<open>K\<close>. The returned documents are the answer of \<open>searchDocuments\<close> for
  \<open>docCount\<close> results, the returned transcripts are taken from the answer of
  \<open>searchVideoTranscripts\<close> for \<open>videoCount + 3\<close> results, and a returned result holds at
  most \<open>docCount\<close> documents and at most \<open>videoCount\<close> transcripts.
\<close>

theorem combined_counts_split:
  assumes "0 \<le> K" and "K < 844424930131973"
    and "searchCombinedForVideoQA st q subj K cur = Inr out"
  shows "docCount K = \<lceil>real_of_int K * 0.7\<rceil>
       \<and> videoCount K = \<lfloor>real_of_int K * 0.3\<rfloor>
       \<and> docCount K + videoCount K = K
       \<and> searchDocuments st q subj \<lceil>real_of_int K * 0.7\<rceil> = Inr (documents out)
       \<and> (\<exists>found. searchVideoTranscripts st q subj (\<lfloor>real_of_int K * 0.3\<rfloor> + 3) = Inr found
                  \<and> length (videos out) \<le> length found)
       \<and> int (length (documents out)) \<le> \<lceil>real_of_int K * 0.7\<rceil>
       \<and> int (length (videos out)) \<le> \<lfloor>real_of_int K * 0.3\<rfloor>"
proof -
  have d: "docCount K = \<lceil>real_of_int K * 0.7\<rceil>"
    and v: "videoCount K = \<lfloor>real_of_int K * 0.3\<rfloor>"
    and t: "docCount K + videoCount K = K"
    using counts_exact[OF assms(1,2)] by simp_all
  from combined_lengths[OF assms(1,3)] d v t show ?thesis
    by simp
qed

theorem combined_counts_split_witness:
  "searchCombinedForVideoQA subject_store ''q'' None 7 None =
     Inr \<lparr>videos = [lecture_result 6 0.4, lecture_result 5 0.4],
          documents = [\<lparr>doc = curated_hit 0, category = Permanent, score = 5.5\<rparr>,
                       \<lparr>doc = curated_hit 2, category = Permanent, score = 5.5\<rparr>],
          totalSources = 4, currentVideoId = None\<rparr>
   \<and> docCount 7 = 5 \<and> videoCount 7 = 2
   \<and> \<lceil>real_of_int 7 * 0.7\<rceil> = (5 :: int) \<and> \<lfloor>real_of_int 7 * 0.3\<rfloor> = (2 :: int)
   \<and> docCount 7 + videoCount 7 = 7
   \<and> int (length [\<lparr>doc = curated_hit 0, category = Permanent, score = 5.5\<rparr>,
                    \<lparr>doc = curated_hit 2, category = Permanent, score = 5.5\<rparr>])
        \<le> docCount 7
   \<and> int (length [lecture_result 6 0.4, lecture_result 5 0.4]) \<le> videoCount 7"
proof -
  have o: "searchCombinedForVideoQA subject_store ''q'' None 7 None =
     Inr \<lparr>videos = [lecture_result 6 0.4, lecture_result 5 0.4],
          documents = [\<lparr>doc = curated_hit 0, category = Permanent, score = 5.5\<rparr>,
                       \<lparr>doc = curated_hit 2, category = Permanent, score = 5.5\<rparr>],
          totalSources = 4, currentVideoId = None\<rparr>"
    by (simp add: searchCombinedForVideoQA_def searchDocuments_def
        searchDocumentsWithContext_def searchVideoTranscripts_def subject_store_def
        js_slice0_def bucket_defs curated_hit_def lecture_hit_def lecture_result_def
        docCount_7 videoCount_7)
  have k: "(0 :: int) \<le> 7" "(7 :: int) < 844424930131973"
    by simp_all
  from combined_counts_split[OF k o] o show ?thesis
    by (simp add: docCount_7 videoCount_7)
qed

section \<open>The subject filter\<close>

text \<open>
  Claim C9. The subject \<open>0\<close> is treated differently by the two searches. The transcript
  search with subject \<open>0\<close> is the search without subject: no filter is applied. The
  document retrieval with subject \<open>0\<close> returns rows of subject \<open>0\<close> only, and there are
  stores on which it differs from the retrieval without subject: it is the retrieval
  without subject on the answer of the store restricted to the rows of subject \<open>0\<close>.
\<close>

theorem subject_zero_filters_documents_only:
  "searchVideoTranscripts st q (Some 0) k = searchVideoTranscripts st q None k
   \<and> searchDocumentsWithContext st q (Some 0) uid sid k =
       searchDocumentsWithContext
         (st\<lparr>docSearch := \<lambda>q n. map_sum id (filter (\<lambda>r. subjectId r = 0)) (docSearch st q n)\<rparr>)
         q None uid sid k
   \<and> (\<forall>out. searchDocumentsWithContext st q (Some 0) uid sid k = Inr out
         \<longrightarrow> (\<forall>x \<in> set out. subjectId (doc x) = 0))
   \<and> (\<exists>st'. searchDocumentsWithContext st' q (Some 0) uid sid 5
           \<noteq> searchDocumentsWithContext st' q None uid sid 5)"
proof (intro conjI allI impI)
  show "searchVideoTranscripts st q (Some 0) k = searchVideoTranscripts st q None k"
    by (simp add: searchVideoTranscripts_def)
next
  show "searchDocumentsWithContext st q (Some 0) uid sid k =
       searchDocumentsWithContext
         (st\<lparr>docSearch := \<lambda>q n. map_sum id (filter (\<lambda>r. subjectId r = 0)) (docSearch st q n)\<rparr>)
         q None uid sid k"
    by (cases "docSearch st q (k * 3)") (simp_all add: searchDocumentsWithContext_def Let_def)
next
  fix out
  assume a: "searchDocumentsWithContext st q (Some 0) uid sid k = Inr out"
  show "\<forall>x \<in> set out. subjectId (doc x) = 0"
  proof
    fix x
    assume "x \<in> set out"
    with a show "subjectId (doc x) = 0"
      using set_js_slice0
      by (fastforce simp: searchDocumentsWithContext_def Let_def scored_def
          split: sum.splits if_splits)
  qed
next
  have "searchDocumentsWithContext (one_hit_store stranger_hit) q (Some 0) uid sid 5 = Inr []"
    by (simp add: searchDocumentsWithContext_def one_hit_store_def stranger_hit_def
        js_slice0_def)
  moreover
  have "searchDocumentsWithContext (one_hit_store stranger_hit) q None uid sid 5 \<noteq> Inr []"
    by (simp add: searchDocumentsWithContext_def one_hit_store_def stranger_hit_def
        js_slice0_def bucket_defs Let_def)
  ultimately show "\<exists>st'. searchDocumentsWithContext st' q (Some 0) uid sid 5
           \<noteq> searchDocumentsWithContext st' q None uid sid 5"
    by metis
qed

theorem subject_zero_filters_documents_only_witness:
  "searchVideoTranscripts subject_store ''q'' (Some 0) 5 =
     Inr [lecture_result 6 0.4, lecture_result 5 0.4]
   \<and> t_subjectId (lecture_result 6 0.4) = 2
   \<and> searchDocumentsWithContext subject_store ''q'' (Some 0) None None 5 =
       Inr [\<lparr>doc = curated_hit 0, category = Permanent, score = 5.5\<rparr>]
   \<and> subjectId (doc \<lparr>doc = curated_hit 0, category = Permanent, score = 5.5\<rparr>) = 0"
proof -
  have n: "searchVideoTranscripts subject_store ''q'' None 5 =
      Inr [lecture_result 6 0.4, lecture_result 5 0.4]"
    by (simp add: searchVideoTranscripts_def subject_store_def lecture_hit_def
        lecture_result_def)
  have o: "searchDocumentsWithContext subject_store ''q'' (Some 0) None None 5 =
       Inr [\<lparr>doc = curated_hit 0, category = Permanent, score = 5.5\<rparr>]"
    by (simp add: searchDocumentsWithContext_def subject_store_def curated_hit_def
        js_slice0_def bucket_defs)
  note th = subject_zero_filters_documents_only[of subject_store "''q''" 5 None None]
  from th n have "searchVideoTranscripts subject_store ''q'' (Some 0) 5 =
     Inr [lecture_result 6 0.4, lecture_result 5 0.4]"
    by simp
  moreover from th o
  have "subjectId (doc \<lparr>doc = curated_hit 0, category = Permanent, score = 5.5\<rparr>) = 0"
    by simp
  ultimately show ?thesis
    using o by (simp add: lecture_result_def)
qed

section \<open>Deleting the vectors of a video\<close>

lemma tryCatch_returns: "\<exists>n s'. tryCatch m (\<lambda>e. Return a) s = Return n s'"
  by (cases "m s") (simp_all add: tryCatch_def)

lemma deleteVideoVectors_returns:
  "videoTable s \<Longrightarrow> \<exists>n s'. deleteVideoVectors ev vid s = Return n s'"
  using tryCatch_returns by (simp add: deleteVideoVectors_def andThen_def)

lemma external_throws_own_error:
  "external ev e act s = Throw e' s' \<Longrightarrow> e' = e"
  by (cases "fails ev (calls s)"; cases "act (s\<lparr>calls := Suc (calls s)\<rparr>)")
     (auto simp: external_def Let_def)

lemma getVideo_keeps_handle:
  "getVideo ev vid s = Return b s' \<Longrightarrow> videoTable s' = videoTable s"
  by (cases "fails ev (calls s)") (auto simp: getVideo_def external_def Let_def)

lemma unlink_returns:
  "\<exists>s'. VideoProcessor_deleteVideo ev s = Return () s' \<and> videoTable s' = videoTable s"
  by (cases "fails ev (calls s)")
     (simp_all add: VideoProcessor_deleteVideo_def tryCatch_def external_def Let_def)

lemma videoStorage_deleteVideo_error:
  "videoStorage_deleteVideo ev vid s = Throw e s' \<Longrightarrow> e = StorageError"
  by (cases "fails ev (calls s)"; cases "fails ev (Suc (calls s))")
     (auto simp: videoStorage_deleteVideo_def andThen_def external_def Let_def)

text \<open>
  The store rejects the condition \<open>vector = [x1,x2,...]\<close> of the loop over the rows of the
  video: each pass ends in the inner \<open>catch\<close>, no row is removed and the count stays as
  it was.
\<close>

lemma video_delete_vector_rejected:
  "video_delete ev (Compare (Bare ''vector'') Equals (ListLiteral v)) s =
     Throw StoreError (s\<lparr>calls := Suc (calls s)\<rparr>)"
  by (cases "tbl_video_transcripts s")
     (simp_all add: video_delete_def external_def read_operand_def compare_cells_def
        video_columns_def Let_def)

lemma deleteEach_removes_nothing:
  "deleteEach ev records n s = Return n (s\<lparr>calls := calls s + length records\<rparr>)"
  by (induction records arbitrary: s) (simp_all add: video_delete_vector_rejected)

text \<open>
  With rows of the videos 5 and 6 in the table, the deletion of the vectors of video 5
  scans the table, has its one delete rejected, returns \<open>0\<close> and leaves the row.
\<close>

lemma deleteVideoVectors_leaves_rows:
  "deleteVideoVectors ev_ok 5 s_mixed = Return 0 (s_mixed\<lparr>calls := 2\<rparr>)"
  by (simp add: deleteVideoVectors_def andThen_def tryCatch_def video_scan_def external_def
      deleteEach_removes_nothing ev_ok_def s_mixed_def lecture_row_def)

text \<open>
  Claim C10. \<open>deleteVideoVectors\<close> is said never to raise an error, whatever fails in the
  store, and to return \<open>0\<close> on failure. The lazy call of \<open>initialize\<close> stands before the
  \<open>try\<close> block: on a service whose transcript table handle is \<open>null\<close>, a store whose
  first call fails makes \<open>deleteVideoVectors\<close> raise the error of \<open>initialize\<close>.
\<close>

theorem deleteVideoVectors_raises_on_failed_initialize:
  "videoTable s_restart = False
   \<and> deleteVideoVectors ev_first_fails 5 s_restart =
       Throw StoreError (s_restart\<lparr>calls := 1\<rparr>)"
  by (simp add: deleteVideoVectors_def initialize_def store_defs ev_first_fails_def
      s_restart_def)

text \<open>
  Claim C10, amended. On a service whose transcript table handle is initialised,
  \<open>deleteVideoVectors\<close> returns a number for every video id and every pattern of failing
  calls. When the scan of the table fails it returns \<open>0\<close> and changes nothing, which is
  also its answer when the scan succeeds and finds no row of the video. An error that
  \<open>VideoService.deleteVideo\<close> raises is therefore never one of the vector store: it comes
  from the relational storage.
\<close>

theorem deleteVideoVectors_returns_when_initialised:
  assumes "videoTable s"
  shows "(\<exists>n s'. deleteVideoVectors ev vid s = Return n s')
     \<and> (fails ev (calls s) \<longrightarrow>
          deleteVideoVectors ev vid s = Return 0 (s\<lparr>calls := Suc (calls s)\<rparr>))
     \<and> (\<not> fails ev (calls s) \<and>
          (\<exists>rows. tbl_video_transcripts s = Some rows
                  \<and> (\<forall>r \<in> set (take 10000 rows). v_videoId r \<noteq> vid)) \<longrightarrow>
          deleteVideoVectors ev vid s = Return 0 (s\<lparr>calls := Suc (calls s)\<rparr>))
     \<and> (\<forall>e s'. deleteVideo ev vid s = Throw e s' \<longrightarrow> e = StorageError)"
proof (intro conjI impI allI)
  show "\<exists>n s'. deleteVideoVectors ev vid s = Return n s'"
    using assms by (rule deleteVideoVectors_returns)
next
  assume "fails ev (calls s)"
  then show "deleteVideoVectors ev vid s = Return 0 (s\<lparr>calls := Suc (calls s)\<rparr>)"
    using assms by (simp add: deleteVideoVectors_def store_defs)
next
  assume a: "\<not> fails ev (calls s) \<and>
     (\<exists>rows. tbl_video_transcripts s = Some rows
             \<and> (\<forall>r \<in> set (take 10000 rows). v_videoId r \<noteq> vid))"
  then obtain rows where r: "tbl_video_transcripts s = Some rows"
    "\<forall>r \<in> set (take 10000 rows). v_videoId r \<noteq> vid"
    by auto
  then have "filter (\<lambda>r. v_videoId r = vid) (take 10000 rows) = []"
    by (simp add: filter_empty_conv)
  then show "deleteVideoVectors ev vid s = Return 0 (s\<lparr>calls := Suc (calls s)\<rparr>)"
    using assms a r by (simp add: deleteVideoVectors_def store_defs Let_def)
next
  fix e s'
  assume th: "deleteVideo ev vid s = Throw e s'"
  show "e = StorageError"
  proof (cases "getVideo ev vid s")
    case (Throw e1 s1)
    with th have "e = e1"
      by (simp add: deleteVideo_def andThen_def)
    with Throw show ?thesis
      using external_throws_own_error by (fastforce simp: getVideo_def)
  next
    case (Return b s1)
    then have v1: "videoTable s1"
      using assms getVideo_keeps_handle by blast
    obtain s2 where s2:
      "(if b then VideoProcessor_deleteVideo ev else Return ()) s1 = Return () s2"
      "videoTable s2"
      using v1 unlink_returns[of ev s1] by (cases b) auto
    obtain n s3 where s3: "deleteVideoVectors ev vid s2 = Return n s3"
      using deleteVideoVectors_returns[OF s2(2)] by blast
    from th Return s2(1) s3 have "videoStorage_deleteVideo ev vid s3 = Throw e s'"
      by (simp add: deleteVideo_def andThen_def)
    then show ?thesis
      by (rule videoStorage_deleteVideo_error)
  qed
qed

theorem deleteVideoVectors_returns_when_initialised_witness:
  "deleteVideoVectors ev_first_fails 5 s_mixed = Return 0 (s_mixed\<lparr>calls := 1\<rparr>)
   \<and> deleteVideoVectors ev_ok 7 s_mixed = Return 0 (s_mixed\<lparr>calls := 1\<rparr>)
   \<and> deleteVideo ev_first_fails 5 s_mixed = Throw StorageError (s_mixed\<lparr>calls := 1\<rparr>)"
proof -
  have v: "videoTable s_mixed"
    by (simp add: s_mixed_def)
  have f: "fails ev_first_fails (calls s_mixed)"
    by (simp add: ev_first_fails_def s_mixed_def)
  have g: "\<not> fails ev_ok (calls s_mixed) \<and>
     (\<exists>rows. tbl_video_transcripts s_mixed = Some rows
             \<and> (\<forall>r \<in> set (take 10000 rows). v_videoId r \<noteq> 7))"
    by (simp add: ev_ok_def s_mixed_def lecture_row_def)
  have c: "Suc (calls s_mixed) = 1"
    by (simp add: s_mixed_def)
  obtain e s' where d: "deleteVideo ev_first_fails 5 s_mixed = Throw e s'"
    "s' = s_mixed\<lparr>calls := 1\<rparr>"
    by (simp add: deleteVideo_def getVideo_def store_defs ev_first_fails_def s_mixed_def)
  from deleteVideoVectors_returns_when_initialised[OF v, of ev_first_fails 5] f d c
  have "deleteVideoVectors ev_first_fails 5 s_mixed = Return 0 (s_mixed\<lparr>calls := 1\<rparr>)"
    and "deleteVideo ev_first_fails 5 s_mixed = Throw StorageError (s_mixed\<lparr>calls := 1\<rparr>)"
    by simp_all
  moreover
  from deleteVideoVectors_returns_when_initialised[OF v, of ev_ok 7] g c
  have "deleteVideoVectors ev_ok 7 s_mixed = Return 0 (s_mixed\<lparr>calls := 1\<rparr>)"
    by simp
  ultimately show ?thesis
    by simp
qed

end
